theory Spec2Isabelle
  imports Complex_Main "HOL-Library.Sublist"
begin

section \<open>JavaScript strings and numbers\<close>

text \<open>
  A JavaScript string is a sequence of UTF-16 code units. The model uses \<open>string\<close>
  (a list of 8-bit \<open>char\<close>), read as the code units below 256 (Latin-1);
  \<open>length\<close> is then the \<open>.length\<close> of the source.
\<close>

definition charCode :: "char \<Rightarrow> nat" where
  "charCode c = of_char c"

text \<open>The code units below 256 that \<open>String.prototype.trim\<close> and the regular
  expression class \<open>\s\<close> treat as white space: TAB, LF, VT, FF, CR, SP and NBSP.\<close>

definition isWhiteSpace :: "char \<Rightarrow> bool" where
  "isWhiteSpace c = (charCode c \<in> {9, 10, 11, 12, 13, 32, 160})"

definition trim :: "string \<Rightarrow> string" where
  "trim s = rev (dropWhile isWhiteSpace (rev (dropWhile isWhiteSpace s)))"

text \<open>
  \<open>s.toLowerCase()\<close> maps code unit by code unit. Below 256 the capitals are
  \<open>A\<close> to \<open>Z\<close> and the accented capitals 0xC0 to 0xDE (0xD7, the multiplication
  sign, is none); the small letter of each lies 32 above it.
\<close>

definition toLowerChar :: "char \<Rightarrow> char" where
  "toLowerChar c =
     (if (65 \<le> charCode c \<and> charCode c \<le> 90)
           \<or> (192 \<le> charCode c \<and> charCode c \<le> 222 \<and> charCode c \<noteq> 215)
      then char_of (charCode c + 32) else c)"

definition toLowerCase :: "string \<Rightarrow> string" where
  "toLowerCase s = map toLowerChar s"

text \<open>
  \<open>s.toUpperCase()\<close>: the small letters \<open>a\<close> to \<open>z\<close> and 0xE0 to 0xFE (0xF7, the
  division sign, is none) have their capital 32 below, and the sharp s (0xDF) becomes
  the two letters \<open>SS\<close>. The capitals of the micro sign (0xB5) and of the y with
  diaeresis (0xFF) are code units beyond 255, which a \<open>char\<close> cannot hold: strings
  with these two are outside what the model of \<open>toUpperCase\<close> describes.
\<close>

definition upperCaseOf :: "char \<Rightarrow> string" where
  "upperCaseOf c =
     (if (97 \<le> charCode c \<and> charCode c \<le> 122)
           \<or> (224 \<le> charCode c \<and> charCode c \<le> 254 \<and> charCode c \<noteq> 247)
      then [char_of (charCode c - 32)]
      else if charCode c = 223 then ''SS''
      else [c])"

definition toUpperCase :: "string \<Rightarrow> string" where
  "toUpperCase s = concat (map upperCaseOf s)"

text \<open>\<open>s.substring(0, n)\<close> for an integer \<open>n\<close>: a negative end is taken as 0, an end
  beyond the string as its length.\<close>

definition substring0 :: "string \<Rightarrow> int \<Rightarrow> string" where
  "substring0 s n = take (nat n) s"

text \<open>
  \<open>s.replace(new RegExp(word, 'gi'), repl)\<close> for a pattern \<open>word\<close> of plain letters:
  the scan runs left to right, replaces a match and resumes behind it (matches do not
  overlap). Without the \<open>u\<close> flag a code unit matches a pattern letter exactly when
  the two have the same capital, and no code unit outside ASCII has an ASCII letter as
  its capital: against a pattern of ASCII letters, comparing the capitals of the ASCII
  letters (\<open>toUpperChar\<close>) is the comparison of the source.
\<close>

definition toUpperChar :: "char \<Rightarrow> char" where
  "toUpperChar c = (if 97 \<le> charCode c \<and> charCode c \<le> 122 then char_of (charCode c - 32) else c)"

definition matchesAt :: "string \<Rightarrow> string \<Rightarrow> bool" where
  "matchesAt word s =
     (length word \<le> length s \<and> map toUpperChar (take (length word) s) = map toUpperChar word)"

function replaceAllCI :: "string \<Rightarrow> string \<Rightarrow> string \<Rightarrow> string" where
  "replaceAllCI word repl [] = []"
| "replaceAllCI word repl (c # cs) =
     (if word \<noteq> [] \<and> matchesAt word (c # cs)
      then repl @ replaceAllCI word repl (drop (length word) (c # cs))
      else c # replaceAllCI word repl cs)"
  by pat_completeness auto
termination
  by (relation "measure (\<lambda>(word, repl, s). length s)") (auto simp: neq_Nil_conv)

text \<open>\<open>s.replace(/\s+/g, repl)\<close>: every maximal run of white space becomes one \<open>repl\<close>.\<close>

function replaceWhiteSpaceRuns :: "string \<Rightarrow> string \<Rightarrow> string" where
  "replaceWhiteSpaceRuns repl [] = []"
| "replaceWhiteSpaceRuns repl (c # cs) =
     (if isWhiteSpace c
      then repl @ replaceWhiteSpaceRuns repl (dropWhile isWhiteSpace cs)
      else c # replaceWhiteSpaceRuns repl cs)"
  by pat_completeness auto
termination
  by (relation "measure (\<lambda>(repl, s). length s)")
     (auto simp: less_Suc_eq_le length_dropWhile_le)

text \<open>\<open>s.split(sep)\<close> for a separator of one code unit: the pieces between the
  separators, the empty ones too; the empty string gives one empty piece.\<close>

fun split :: "char \<Rightarrow> string \<Rightarrow> string list" where
  "split sep [] = [[]]"
| "split sep (c # cs) =
     (if c = sep then [] # split sep cs
      else (case split sep cs of [] \<Rightarrow> [[c]] | w # ws \<Rightarrow> (c # w) # ws))"

text \<open>\<open>xs.join(sep)\<close> on an array of strings.\<close>

fun join :: "string \<Rightarrow> string list \<Rightarrow> string" where
  "join sep [] = []"
| "join sep [x] = x"
| "join sep (x # y # ys) = x @ sep @ join sep (y # ys)"

text \<open>\<open>xs.indexOf(x)\<close>: the first index holding \<open>x\<close>; \<open>None\<close> stands for -1.\<close>

fun indexOf :: "'a list \<Rightarrow> 'a \<Rightarrow> nat option" where
  "indexOf [] x = None"
| "indexOf (y # ys) x = (if y = x then Some 0 else map_option Suc (indexOf ys x))"

text \<open>The decimal numeral of an integer, as a template literal or \<open>String(n)\<close> prints it
  (for integers below \<open>10^21\<close> in magnitude, which print without an exponent).\<close>

definition digitChar :: "nat \<Rightarrow> char" where
  "digitChar d = char_of (48 + d)"

fun showNat :: "nat \<Rightarrow> string" where
  "showNat n = (if n < 10 then [digitChar n] else showNat (n div 10) @ [digitChar (n mod 10)])"

definition showInt :: "int \<Rightarrow> string" where
  "showInt i = (if i < 0 then CHR ''-'' # showNat (nat (- i)) else showNat (nat i))"

text \<open>
  \<open>parseInt(s, 10)\<close> on a string: leading white space is skipped, one sign is read,
  then the longest run of decimal digits; no digit at all gives NaN (\<open>None\<close>).
  The source clamps every result to [1, 99], so the double that \<open>parseInt\<close> returns
  for a numeral beyond \<open>2^53\<close> and the exact integer used here are clamped alike.
\<close>

definition isDigit :: "char \<Rightarrow> bool" where
  "isDigit c = (48 \<le> charCode c \<and> charCode c \<le> 57)"

definition digitsValue :: "string \<Rightarrow> nat" where
  "digitsValue ds = foldl (\<lambda>acc c. acc * 10 + (charCode c - 48)) 0 ds"

definition parseInt10 :: "string \<Rightarrow> int option" where
  "parseInt10 s =
     (let S = dropWhile isWhiteSpace s;
          negative = (S \<noteq> [] \<and> hd S = CHR ''-'');
          S1 = (if S \<noteq> [] \<and> (hd S = CHR ''-'' \<or> hd S = CHR ''+'') then tl S else S);
          Z = takeWhile isDigit S1
      in if Z = [] then None
         else Some (if negative then - int (digitsValue Z) else int (digitsValue Z)))"

subsection \<open>Values and exceptions\<close>

text \<open>
  What \<open>JSON.parse\<close> returns, and \<open>undefined\<close>, which reading a missing property
  gives. Numbers are the integers below \<open>10^21\<close> in magnitude (those print as plain
  decimal numerals); fractions and larger numbers are outside the model. An object is
  the list of its keys and values (a key is looked up from the front).
\<close>

datatype jsval =
    JUndefined
  | JNull
  | JBool bool
  | JNum int
  | JStr string
  | JArr "jsval list"
  | JObj "(string \<times> jsval) list"

text \<open>A thrown value: \<open>new Error(message)\<close> of the source, or a \<open>TypeError\<close> of the
  engine (its message is the engine's wording; the model records what failed).\<close>

datatype jserror = Error string | TypeError string

fun errorMessage :: "jserror \<Rightarrow> string" where
  "errorMessage (Error m) = m"
| "errorMessage (TypeError m) = m"

definition bindE :: "'e + 'a \<Rightarrow> ('a \<Rightarrow> 'e + 'b) \<Rightarrow> 'e + 'b" where
  "bindE m f = (case m of Inl e \<Rightarrow> Inl e | Inr x \<Rightarrow> f x)"

fun truthy :: "jsval \<Rightarrow> bool" where
  "truthy JUndefined = False"
| "truthy JNull = False"
| "truthy (JBool b) = b"
| "truthy (JNum n) = (n \<noteq> 0)"
| "truthy (JStr s) = (s \<noteq> [])"
| "truthy (JArr xs) = True"
| "truthy (JObj kvs) = True"

definition nullish :: "jsval \<Rightarrow> bool" where
  "nullish v = (v = JUndefined \<or> v = JNull)"

text \<open>
  \<open>v.key\<close> on a value that is neither \<open>null\<close> nor \<open>undefined\<close>. The keys the source
  reads (the fields of a card, \<open>stats\<close>, \<open>cards\<close>, \<open>players\<close>) are no properties of a
  string, number, boolean or array, so only an object can hold them.
\<close>

fun property :: "jsval \<Rightarrow> string \<Rightarrow> jsval" where
  "property (JObj kvs) key = (case map_of kvs key of Some v \<Rightarrow> v | None \<Rightarrow> JUndefined)"
| "property v key = JUndefined"

text \<open>\<open>v.key\<close> throws on \<open>null\<close> and \<open>undefined\<close>; \<open>v?.key\<close> gives \<open>undefined\<close> there.\<close>

definition getProp :: "jsval \<Rightarrow> string \<Rightarrow> jserror + jsval" where
  "getProp v key =
     (if nullish v then Inl (TypeError (''Cannot read properties of null or undefined: '' @ key))
      else Inr (property v key))"

definition optChain :: "jsval \<Rightarrow> string \<Rightarrow> jsval" where
  "optChain v key = (if nullish v then JUndefined else property v key)"

text \<open>
  \<open>String(v)\<close>, the conversion \<open>parseInt\<close> applies to its argument. An array prints its
  elements joined by commas, \<open>null\<close> and \<open>undefined\<close> elements as nothing; a parsed
  object prints as \<open>[object Object]\<close>, unless it has a key \<open>toString\<close> of its own: that
  value cannot be called and the conversion throws.
\<close>

fun ToString :: "jsval \<Rightarrow> jserror + string"
  and joinElements :: "jsval list \<Rightarrow> jserror + string" where
  "ToString JUndefined = Inr ''undefined''"
| "ToString JNull = Inr ''null''"
| "ToString (JBool b) = Inr (if b then ''true'' else ''false'')"
| "ToString (JNum n) = Inr (showInt n)"
| "ToString (JStr s) = Inr s"
| "ToString (JArr xs) = joinElements xs"
| "ToString (JObj kvs) =
     (if map_of kvs ''toString'' \<noteq> None
      then Inl (TypeError ''Cannot convert object to primitive value'')
      else Inr ''[object Object]'')"
| "joinElements [] = Inr []"
| "joinElements (x # xs) =
     (case (if x = JUndefined \<or> x = JNull then Inr [] else ToString x) of
        Inl e \<Rightarrow> Inl e
      | Inr s \<Rightarrow>
          (if xs = [] then Inr s
           else (case joinElements xs of Inl e \<Rightarrow> Inl e | Inr r \<Rightarrow> Inr (s @ '','' @ r))))"

text \<open>\<open>new Date(v)\<close>. The model keeps the argument; \<open>new Date()\<close> is \<open>new Date(Date.now())\<close>.
  The constructor first turns an object or array into a primitive value, which throws
  where \<open>String(v)\<close> throws: an inherited \<open>valueOf\<close> gives the object back, and
  \<open>toString\<close> is tried next.\<close>

datatype jsdate = NewDate jsval

definition newDate :: "jsval \<Rightarrow> jserror + jsdate" where
  "newDate v = bindE (ToString v) (\<lambda>s. Inr (NewDate v))"

text \<open>\<open>Math.round\<close>: the nearest integer, a tie going up.\<close>

definition Math_round :: "'a::floor_ceiling \<Rightarrow> int" where
  "Math_round x = \<lfloor>x + 1 / 2\<rfloor>"

section \<open>The player model (player.model.ts)\<close>

text \<open>\<open>PlayerStats\<close>: six named numbers. The type of the numbers is a parameter:
  \<open>int\<close> for the stats of a card, and a type with a NaN for what the randomizer returns.\<close>

record 'n PlayerStats =
  technical :: 'n
  leadership :: 'n
  creativity :: 'n
  reliability :: 'n
  collaboration :: 'n
  adaptability :: 'n

text \<open>\<open>Object.values(stats)\<close>: the values in the order the keys were written.\<close>

definition Object_values :: "'n PlayerStats \<Rightarrow> 'n list" where
  "Object_values s =
     [technical s, leadership s, creativity s, reliability s, collaboration s, adaptability s]"

text \<open>
  \<open>PlayerData\<close>. The optional fields that the JSON import fills from untyped input
  (\<open>id\<close>, \<open>profilePhoto\<close>, \<open>customLogo\<close>) hold a \<open>jsval\<close>, \<open>JUndefined\<close> when absent;
  \<open>manualRating\<close> and the two dates are optional. \<open>ITPosition\<close> and \<open>CardTheme\<close> are
  unions of string literals, strings when the program runs.
\<close>

record PlayerData =
  id' :: jsval
  name :: string
  position :: string
  nationality :: string
  rating :: int
  manualRating :: "bool option"
  stats :: "int PlayerStats"
  profilePhoto :: jsval
  backgroundTheme :: string
  customLogo :: jsval
  createdAt :: "jsdate option"
  updatedAt :: "jsdate option"

text \<open>
  \<open>Partial<PlayerData>\<close>: every key may be missing (\<open>None\<close>). A key of an optional
  field may also be present and hold \<open>undefined\<close>, as in
  \<open>updatePlayer({ profilePhoto: undefined })\<close>: \<open>Some None\<close>, or \<open>Some JUndefined\<close>.
\<close>

record PartialPlayerData =
  has_id :: "jsval option"
  has_name :: "string option"
  has_position :: "string option"
  has_nationality :: "string option"
  has_rating :: "int option"
  has_manualRating :: "bool option option"
  has_stats :: "int PlayerStats option"
  has_profilePhoto :: "jsval option"
  has_backgroundTheme :: "string option"
  has_customLogo :: "jsval option"
  has_createdAt :: "jsdate option option"
  has_updatedAt :: "jsdate option option"

text \<open>The spread \<open>{ ...currentPlayer, ...player }\<close>: a key of \<open>player\<close> wins.\<close>

definition orKeep :: "'a option \<Rightarrow> 'a \<Rightarrow> 'a" where
  "orKeep new old = (case new of Some v \<Rightarrow> v | None \<Rightarrow> old)"

definition spread :: "PlayerData \<Rightarrow> PartialPlayerData \<Rightarrow> PlayerData" where
  "spread currentPlayer player =
     \<lparr> id' = orKeep (has_id player) (id' currentPlayer),
       name = orKeep (has_name player) (name currentPlayer),
       position = orKeep (has_position player) (position currentPlayer),
       nationality = orKeep (has_nationality player) (nationality currentPlayer),
       rating = orKeep (has_rating player) (rating currentPlayer),
       manualRating = orKeep (has_manualRating player) (manualRating currentPlayer),
       stats = orKeep (has_stats player) (stats currentPlayer),
       profilePhoto = orKeep (has_profilePhoto player) (profilePhoto currentPlayer),
       backgroundTheme = orKeep (has_backgroundTheme player) (backgroundTheme currentPlayer),
       customLogo = orKeep (has_customLogo player) (customLogo currentPlayer),
       createdAt = orKeep (has_createdAt player) (createdAt currentPlayer),
       updatedAt = orKeep (has_updatedAt player) (updatedAt currentPlayer) \<rparr>"

section \<open>CardService (card.service.ts)\<close>

text \<open>
  \<open>calculateOverallRating\<close>: the sum of the values, divided by their number, rounded.
  The source computes in doubles; on integer stats the sum is exact, the quotient is the
  double nearest to a multiple of 1/6, and a half-integer is a double, so the double
  lies on the same side of every tie as the exact quotient: the exact rational below
  rounds to the same integer.
\<close>

definition calculateOverallRating :: "int PlayerStats \<Rightarrow> int" where
  "calculateOverallRating playerStats =
     (let values = Object_values playerStats;
          average = rat_of_int (foldl (+) 0 values) / rat_of_int (int (length values))
      in Math_round average)"

definition blockedWords :: "string list" where
  "blockedWords = [''test'', ''dummy'', ''fake'']"

text \<open>\<open>sanitizeInput(input, maxLength)\<close>; the source's default for \<open>maxLength\<close> is 50.\<close>

definition sanitizeInput :: "string \<Rightarrow> int \<Rightarrow> string" where
  "sanitizeInput input maxLength =
     (let sanitized = foldl (\<lambda>acc word. replaceAllCI word ''***'' acc) (trim input) blockedWords
      in if int (length sanitized) > maxLength
         then substring0 sanitized (maxLength - 3) @ ''...''
         else sanitized)"

definition sanitizeInput_default :: "string \<Rightarrow> string" where
  "sanitizeInput_default input = sanitizeInput input 50"


text \<open>
  \<open>updatePlayer(player)\<close>. The state of the service is the value of
  \<open>currentPlayerSubject\<close>; \<open>now\<close> is the clock read by \<open>new Date()\<close>. The test
  \<open>!player.manualRating && player.stats\<close> reads the argument, not the merged card:
  \<open>!player.manualRating\<close> holds when the key is missing, \<open>undefined\<close> or \<open>false\<close>.
\<close>

definition updatePlayer :: "int \<Rightarrow> PartialPlayerData \<Rightarrow> PlayerData \<Rightarrow> PlayerData" where
  "updatePlayer now player currentPlayer =
     (let updatedPlayer = (spread currentPlayer player)\<lparr> updatedAt := Some (NewDate (JNum now)) \<rparr>
      in if has_manualRating player \<noteq> Some (Some True) \<and> has_stats player \<noteq> None
         then updatedPlayer\<lparr> rating := calculateOverallRating (stats updatedPlayer) \<rparr>
         else updatedPlayer)"

subsection \<open>The seeded generator\<close>

text \<open>\<open>ToInt32\<close>, which \<open><<\<close> and \<open>&\<close> apply to their operands and result.\<close>

definition ToInt32 :: "int \<Rightarrow> int" where
  "ToInt32 x = (x + 2 ^ 31) mod 2 ^ 32 - 2 ^ 31"

text \<open>One round of the loop of \<open>seededRandom\<close>: \<open>hash = ((hash << 5) - hash) + char\<close>,
  then \<open>hash = hash & hash\<close>.\<close>

definition hashStep :: "int \<Rightarrow> char \<Rightarrow> int" where
  "hashStep hash c = ToInt32 ((ToInt32 (hash * 2 ^ 5) - hash) + int (charCode c))"

text \<open>The value of \<open>hash\<close> when \<open>seededRandom(seed)\<close> returns its closure.\<close>

definition seededRandom :: "string \<Rightarrow> int" where
  "seededRandom seed = foldl hashStep 0 seed"

text \<open>The remainder \<open>%\<close> of JavaScript takes the sign of the dividend.\<close>

definition jsRem :: "int \<Rightarrow> int \<Rightarrow> int" where
  "jsRem a b = sgn a * (\<bar>a\<bar> mod \<bar>b\<bar>)"

text \<open>
  A call of the closure: \<open>hash = hash * 16807 % 2147483647\<close>, then
  \<open>(hash - 1) / 2147483646\<close> is returned. The product stays below \<open>2^53\<close>, so it is
  exact; the quotient is the double nearest to the rational below, with the same sign.
\<close>

definition lcgNext :: "int \<Rightarrow> int" where
  "lcgNext hash = jsRem (hash * 16807) 2147483647"

definition lcgValue :: "int \<Rightarrow> rat" where
  "lcgValue hash = (rat_of_int hash - 1) / 2147483646"

text \<open>
  The generator \<open>rng\<close> of \<open>randomizeStats\<close>: the seeded closure with its \<open>hash\<close>, or
  \<open>Math.random\<close>. What \<open>Math.random\<close> returns is not the program's to decide: it is the
  parameter \<open>random\<close>, the sequence of its results, each at least 0 and below 1; the
  state counts the calls made so far.
\<close>

datatype rng = Seeded int | MathRandom nat

fun callRng :: "(nat \<Rightarrow> rat) \<Rightarrow> rng \<Rightarrow> rat \<times> rng" where
  "callRng random (Seeded hash) = (lcgValue (lcgNext hash), Seeded (lcgNext hash))"
| "callRng random (MathRandom k) = (random k, MathRandom (Suc k))"

text \<open>
  The arithmetic of \<open>generateStat\<close> on the two draws. \<open>None\<close> is NaN.
  \<^item> \<open>Math.log\<close> of a negative number is NaN, and so is \<open>Math.sqrt\<close> of one (\<open>u1 > 1\<close>);
    NaN goes through \<open>*\<close>, \<open>+\<close>, \<open>Math.round\<close>, \<open>Math.min\<close> and \<open>Math.max\<close>.
  \<^item> \<open>Math.log(0)\<close> is \<open>-Infinity\<close>, the square root \<open>Infinity\<close>; times the cosine it is
    \<open>Infinity\<close>, \<open>-Infinity\<close> or (times 0) NaN, which the clamp turns into 98, 60 or NaN.
  \<^item> Otherwise every value is finite. The functions are the real ones: the rounding
    errors of the doubles are left out.
\<close>

definition generateStatValue :: "rat \<Rightarrow> rat \<Rightarrow> int option" where
  "generateStatValue u1 u2 =
     (let c = cos (2 * pi * real_of_rat u2)
      in if u1 < 0 \<or> 1 < u1 then None
         else if u1 = 0 then (if 0 < c then Some 98 else if c < 0 then Some 60 else None)
         else let z0 = sqrt (- 2 * ln (real_of_rat u1)) * c;
                  mean = 78;
                  stdDev = 8;
                  val = Math_round (z0 * stdDev + mean)
              in Some (max 60 (min 98 val)))"

definition generateStat :: "(nat \<Rightarrow> rat) \<Rightarrow> rng \<Rightarrow> int option \<times> rng" where
  "generateStat random g =
     (let (u1, g1) = callRng random g;
          (u2, g2) = callRng random g1
      in (generateStatValue u1 u2, g2))"

text \<open>\<open>randomizeStats(seed?)\<close>: \<open>seed ? this.seededRandom(seed) : Math.random\<close> takes the
  seeded generator for a seed that is truthy, a string that is not empty. The fields of
  the object literal are evaluated in the order written.\<close>

definition randomizeStats :: "(nat \<Rightarrow> rat) \<Rightarrow> string option \<Rightarrow> int option PlayerStats" where
  "randomizeStats random seed =
     (let g0 = (case seed of
                  None \<Rightarrow> MathRandom 0
                | Some s \<Rightarrow> if s \<noteq> [] then Seeded (seededRandom s) else MathRandom 0);
          (v1, g1) = generateStat random g0;
          (v2, g2) = generateStat random g1;
          (v3, g3) = generateStat random g2;
          (v4, g4) = generateStat random g3;
          (v5, g5) = generateStat random g4;
          (v6, g6) = generateStat random g5
      in \<lparr> technical = v1, leadership = v2, creativity = v3,
           reliability = v4, collaboration = v5, adaptability = v6 \<rparr>)"

section \<open>BatchService (batch.service.ts)\<close>

datatype Status = idle | processing | completed | error

record BatchProgress =
  current :: nat
  total :: nat
  status :: Status
  message :: string

text \<open>The \<open>data\<close> of a report is untyped in the source; it holds the cells of a CSV
  row, a CSV line, a JSON item or a card.\<close>

datatype rowData = Cells "string list" | Line string | Item jsval | Player PlayerData

record RowReport =
  row :: nat
  rowMessage :: string
  data :: rowData

record BatchImportResult =
  success :: "PlayerData list"
  errors :: "RowReport list"
  warnings :: "RowReport list"

text \<open>
  The state of the service: its three subjects. \<open>batchProgress\<close> lists every snapshot
  the subject was given, the oldest first; the last one is its current value.
\<close>

record BatchService =
  batchProgress :: "BatchProgress list"
  batchCards :: "PlayerData list"
  photoLibrary :: "string \<rightharpoonup> string"

definition initialBatchService :: BatchService where
  "initialBatchService =
     \<lparr> batchProgress = [\<lparr> current = 0, total = 0, status = idle, message = [] \<rparr>],
       batchCards = [],
       photoLibrary = Map.empty \<rparr>"

definition updateProgress ::
  "nat \<Rightarrow> nat \<Rightarrow> Status \<Rightarrow> string \<Rightarrow> BatchService \<Rightarrow> BatchService" where
  "updateProgress c t s m st =
     st\<lparr> batchProgress := batchProgress st
            @ [\<lparr> current = c, total = t, status = s, message = m \<rparr>] \<rparr>"

subsection \<open>Helpers\<close>

text \<open>\<open>parseCSVLine\<close>: the loop over the characters, with its three variables.\<close>

fun parseCSVLine_loop :: "string \<Rightarrow> string list \<Rightarrow> string \<Rightarrow> bool \<Rightarrow> string list" where
  "parseCSVLine_loop [] result cur inQuotes = result @ [trim cur]"
| "parseCSVLine_loop (c # cs) result cur inQuotes =
     (if c = CHR 0x22 then parseCSVLine_loop cs result cur (\<not> inQuotes)
      else if c = CHR '','' \<and> \<not> inQuotes then parseCSVLine_loop cs (result @ [trim cur]) [] inQuotes
      else parseCSVLine_loop cs result (cur @ [c]) inQuotes)"

definition parseCSVLine :: "string \<Rightarrow> string list" where
  "parseCSVLine line = parseCSVLine_loop line [] [] False"

definition validPositions :: "string list" where
  "validPositions = [''DEV'', ''OPS'', ''DATA'', ''PM'', ''QA'', ''UX'', ''SEC'', ''ARCH'']"

text \<open>\<open>validatePosition\<close>: \<open>position?.toUpperCase()\<close> is \<open>undefined\<close> on \<open>null\<close> and
  \<open>undefined\<close>, the upper-cased string on a string, and a \<open>TypeError\<close> on anything else
  (no such method).\<close>

definition validatePosition :: "jsval \<Rightarrow> jserror + string" where
  "validatePosition pos =
     (case pos of
        JUndefined \<Rightarrow> Inr ''DEV''
      | JNull \<Rightarrow> Inr ''DEV''
      | JStr s \<Rightarrow>
          (let upperPosition = toUpperCase s
           in Inr (if upperPosition \<in> set validPositions then upperPosition else ''DEV''))
      | _ \<Rightarrow> Inl (TypeError ''position.toUpperCase is not a function''))"

definition validThemes :: "string list" where
  "validThemes = [''gold-classic'', ''dark-mode-it'', ''silver-modern'', ''bronze-vintage'']"

text \<open>\<open>validateTheme\<close>: \<open>includes\<close> compares with strict equality, so only a string can
  be found in the list.\<close>

definition validateTheme :: "jsval \<Rightarrow> string" where
  "validateTheme theme =
     (case theme of
        JStr s \<Rightarrow> if s \<in> set validThemes then s else ''gold-classic''
      | _ \<Rightarrow> ''gold-classic'')"

text \<open>\<open>clampStat(value)\<close>: \<open>parseInt\<close> converts its argument to a string first.\<close>

definition clampStat :: "jsval \<Rightarrow> jserror + int" where
  "clampStat v =
     bindE (ToString v) (\<lambda>str.
       case parseInt10 str of
         Some parsed \<Rightarrow> Inr (max 1 (min 99 parsed))
       | None \<Rightarrow> Inr 75)"

record Validation =
  isValid :: bool
  validationErrors :: "string list"
  validationWarnings :: "string list"

definition validatePlayerData :: "PlayerData \<Rightarrow> Validation" where
  "validatePlayerData playerData =
     (let e1 = (if name playerData = [] then [''Name is required''] else []);
          e2 = e1 @ (if position playerData = [] then [''Position is required''] else []);
          e3 = e2 @ (if nationality playerData = [] \<or> length (nationality playerData) < 2
                     then [''Valid nationality code is required''] else []);
          w1 = (if length (name playerData) > 25
                then [''Name is quite long and may not display well''] else []);
          w2 = w1 @ (if rating playerData < 50 then [''Rating seems unusually low''] else []);
          w3 = w2 @ (if rating playerData > 95 then [''Rating seems unusually high''] else [])
      in \<lparr> isValid = (e3 = []), validationErrors = e3, validationWarnings = w3 \<rparr>)"

subsection \<open>CSV import\<close>

text \<open>The two local functions of \<open>parsePlayerDataFromCSV\<close>. \<open>values[index]\<close> beyond the
  row is \<open>undefined\<close>, and \<open>undefined?.trim() || ''\<close> is the empty string.\<close>

definition getValue :: "string list \<Rightarrow> string list \<Rightarrow> string \<Rightarrow> string" where
  "getValue headers values field =
     (case indexOf headers field of
        None \<Rightarrow> []
      | Some index \<Rightarrow> if index < length values then trim (values ! index) else [])"

definition getNumericValue :: "string list \<Rightarrow> string list \<Rightarrow> string \<Rightarrow> int \<Rightarrow> int" where
  "getNumericValue headers values field defaultValue =
     (case parseInt10 (getValue headers values field) of
        Some parsed \<Rightarrow> max 1 (min 99 parsed)
      | None \<Rightarrow> defaultValue)"

text \<open>\<open>now\<close> is the clock (\<open>Date.now()\<close>, \<open>new Date()\<close>) while the row is parsed.\<close>

definition parsePlayerDataFromCSV ::
  "string list \<Rightarrow> string list \<Rightarrow> nat \<Rightarrow> int \<Rightarrow> jserror + PlayerData" where
  "parsePlayerDataFromCSV headers values rowIndex now =
     (let playerStats =
            \<lparr> technical = getNumericValue headers values ''technical'' 75,
              leadership = getNumericValue headers values ''leadership'' 75,
              creativity = getNumericValue headers values ''creativity'' 75,
              reliability = getNumericValue headers values ''reliability'' 75,
              collaboration = getNumericValue headers values ''collaboration'' 75,
              adaptability = getNumericValue headers values ''adaptability'' 75 \<rparr>
      in bindE (validatePosition (JStr (getValue headers values ''position''))) (\<lambda>pos.
           Inr \<lparr> id' = JStr (''batch_'' @ showNat rowIndex @ ''_'' @ showInt now),
                 name = sanitizeInput (getValue headers values ''name'') 30,
                 position = pos,
                 nationality = substring0 (toUpperCase (getValue headers values ''nationality'')) 3,
                 rating = getNumericValue headers values ''rating''
                            (calculateOverallRating playerStats),
                 manualRating = Some (getValue headers values ''rating'' \<noteq> []),
                 stats = playerStats,
                 profilePhoto = JUndefined,
                 backgroundTheme = validateTheme (JStr (getValue headers values ''theme'')),
                 customLogo = JUndefined,
                 createdAt = Some (NewDate (JNum now)),
                 updatedAt = Some (NewDate (JNum now)) \<rparr>))"

definition emptyResult :: BatchImportResult where
  "emptyResult = \<lparr> success = [], errors = [], warnings = [] \<rparr>"

text \<open>What both import loops do with a parsed card: validate, then report or accept.\<close>

definition acceptOrReject ::
  "nat \<Rightarrow> rowData \<Rightarrow> PlayerData \<Rightarrow> BatchImportResult \<Rightarrow> BatchImportResult" where
  "acceptOrReject r raw playerData result =
     (let validation = validatePlayerData playerData
      in if \<not> isValid validation
         then result\<lparr> errors := errors result
                @ [\<lparr> row = r, rowMessage = join '', '' (validationErrors validation),
                     data = raw \<rparr>] \<rparr>
         else let result1 =
                    (if validationWarnings validation \<noteq> []
                     then result\<lparr> warnings := warnings result
                            @ [\<lparr> row = r,
                                 rowMessage = join '', '' (validationWarnings validation),
                                 data = Player playerData \<rparr>] \<rparr>
                     else result)
              in result1\<lparr> success := success result1 @ [playerData] \<rparr>)"

text \<open>The body of the \<open>for\<close> loop of \<open>importFromCSV\<close> behind its progress update: the
  \<open>try\<close> block and its \<open>catch\<close>.\<close>

definition processCSVRow ::
  "string list \<Rightarrow> int \<Rightarrow> nat \<Rightarrow> string \<Rightarrow> BatchImportResult \<Rightarrow> BatchImportResult" where
  "processCSVRow headers now i line result =
     (let values = parseCSVLine line
      in if values = [] then result
         else (case parsePlayerDataFromCSV headers values i now of
                 Inl e \<Rightarrow>
                   result\<lparr> errors := errors result
                     @ [\<lparr> row = i, rowMessage = errorMessage e, data = Line line \<rparr>] \<rparr>
               | Inr playerData \<Rightarrow> acceptOrReject i (Cells values) playerData result))"

text \<open>The loop \<open>for (let i = 1; i < lines.length; i++)\<close>, on the lines from \<open>i\<close> on;
  \<open>clock i\<close> is the clock during row \<open>i\<close>, \<open>n\<close> is \<open>lines.length - 1\<close>.\<close>

fun csvRows ::
  "string list \<Rightarrow> (nat \<Rightarrow> int) \<Rightarrow> nat \<Rightarrow> nat \<Rightarrow> string list
     \<Rightarrow> BatchService \<times> BatchImportResult \<Rightarrow> BatchService \<times> BatchImportResult" where
  "csvRows headers clock n i [] (st, result) = (st, result)"
| "csvRows headers clock n i (line # rest) (st, result) =
     csvRows headers clock n (Suc i) rest
       (updateProgress i n processing (''Processing row '' @ showNat i @ ''...'') st,
        processCSVRow headers (clock i) i line result)"

definition requiredFields :: "string list" where
  "requiredFields = [''name'', ''position'', ''nationality'']"

text \<open>The \<open>catch\<close> of an import: the progress is set to \<open>error\<close>, the error thrown on.\<close>

definition failImport ::
  "jserror \<Rightarrow> BatchService \<Rightarrow> BatchService \<times> (jserror + BatchImportResult)" where
  "failImport e st = (updateProgress 0 0 error (errorMessage e) st, Inl e)"

definition finishImport ::
  "BatchService \<times> BatchImportResult \<Rightarrow> BatchService \<times> (jserror + BatchImportResult)" where
  "finishImport p =
     (case p of (st, result) \<Rightarrow>
        (updateProgress (length (success result)) (length (success result)) completed
           (''Imported '' @ showNat (length (success result)) @ '' cards successfully'')
           (st\<lparr> batchCards := success result \<rparr>),
         Inr result))"

definition csvLines :: "string \<Rightarrow> string list" where
  "csvLines text = filter (\<lambda>line. trim line \<noteq> []) (split (CHR 0x0A) text)"

definition csvHeaders :: "string list \<Rightarrow> string list" where
  "csvHeaders lines = map (\<lambda>h. toLowerCase (trim h)) (split (CHR '','') (hd lines))"

text \<open>
  \<open>importFromCSV(file)\<close>. \<open>fileText\<close> is what \<open>await file.text()\<close> gives: the text, or the
  error it rejects with. The result is the new state and what the promise settles to:
  the \<open>BatchImportResult\<close>, or the error thrown.
\<close>

definition importFromCSV ::
  "(nat \<Rightarrow> int) \<Rightarrow> jserror + string \<Rightarrow> BatchService
     \<Rightarrow> BatchService \<times> (jserror + BatchImportResult)" where
  "importFromCSV clock fileText st0 =
     (let st1 = updateProgress 0 0 processing ''Reading CSV file...'' st0
      in case fileText of
           Inl e \<Rightarrow> failImport e st1
         | Inr text \<Rightarrow>
             (let lines = csvLines text
              in if lines = [] then failImport (Error ''Empty CSV file'') st1
                 else let headers = csvHeaders lines;
                          missingRequired = filter (\<lambda>field. field \<notin> set headers) requiredFields
                      in if missingRequired \<noteq> []
                         then failImport
                                (Error (''Missing required columns: '' @ join '', '' missingRequired))
                                st1
                         else finishImport
                                (csvRows headers clock (length lines - 1) 1 (tl lines)
                                   (st1, emptyResult))))"

subsection \<open>JSON import\<close>

definition orElse :: "jsval \<Rightarrow> jsval \<Rightarrow> jsval" where
  "orElse a b = (if truthy a then a else b)"

text \<open>\<open>clampStat(jsonItem.key || jsonItem.stats?.key || 75)\<close>: reading \<open>jsonItem.key\<close>
  throws when the item is \<open>null\<close>; the operands of \<open>||\<close> are read from the left, the
  later ones only when the earlier are falsy.\<close>

definition statFromJSON :: "jsval \<Rightarrow> string \<Rightarrow> jserror + int" where
  "statFromJSON jsonItem key =
     bindE (getProp jsonItem key) (\<lambda>top.
       if truthy top then clampStat top
       else bindE (getProp jsonItem ''stats'') (\<lambda>nestedStats.
              clampStat (orElse (optChain nestedStats key) (JNum 75))))"

text \<open>\<open>sanitizeInput\<close> on an untyped argument: \<open>input.trim()\<close> exists on a string only.\<close>

definition sanitizeInputAny :: "jsval \<Rightarrow> int \<Rightarrow> jserror + string" where
  "sanitizeInputAny input maxLength =
     (case input of
        JStr s \<Rightarrow> Inr (sanitizeInput s maxLength)
      | _ \<Rightarrow> Inl (TypeError ''input.trim is not a function''))"

text \<open>\<open>(jsonItem.nationality || '').toUpperCase().substring(0, 3)\<close>.\<close>

definition nationalityFromJSON :: "jsval \<Rightarrow> jserror + string" where
  "nationalityFromJSON v =
     (case orElse v (JStr []) of
        JStr s \<Rightarrow> Inr (substring0 (toUpperCase s) 3)
      | _ \<Rightarrow> Inl (TypeError ''toUpperCase is not a function''))"

text \<open>
  \<open>parsePlayerDataFromJSON(jsonItem, index)\<close>. Once the stats are read the item is known
  not to be \<open>null\<close>, so the later reads \<open>jsonItem.key\<close> cannot throw and are written
  with \<open>property\<close>. The fields are evaluated in the order of the object literal.
\<close>

definition parsePlayerDataFromJSON :: "jsval \<Rightarrow> nat \<Rightarrow> int \<Rightarrow> jserror + PlayerData" where
  "parsePlayerDataFromJSON jsonItem index now =
     bindE (statFromJSON jsonItem ''technical'') (\<lambda>v1.
     bindE (statFromJSON jsonItem ''leadership'') (\<lambda>v2.
     bindE (statFromJSON jsonItem ''creativity'') (\<lambda>v3.
     bindE (statFromJSON jsonItem ''reliability'') (\<lambda>v4.
     bindE (statFromJSON jsonItem ''collaboration'') (\<lambda>v5.
     bindE (statFromJSON jsonItem ''adaptability'') (\<lambda>v6.
       let playerStats = \<lparr> technical = v1, leadership = v2, creativity = v3,
                           reliability = v4, collaboration = v5, adaptability = v6 \<rparr>
       in
     bindE (sanitizeInputAny (orElse (property jsonItem ''name'') (JStr [])) 30) (\<lambda>nm.
     bindE (validatePosition (property jsonItem ''position'')) (\<lambda>pos.
     bindE (nationalityFromJSON (property jsonItem ''nationality'')) (\<lambda>natl.
     bindE (if truthy (property jsonItem ''rating'')
            then clampStat (property jsonItem ''rating'')
            else Inr (calculateOverallRating playerStats)) (\<lambda>rt.
     bindE (newDate (orElse (property jsonItem ''createdAt'') (JNum now))) (\<lambda>created.
       Inr \<lparr> id' = orElse (property jsonItem ''id'')
                     (JStr (''batch_json_'' @ showNat index @ ''_'' @ showInt now)),
             name = nm,
             position = pos,
             nationality = natl,
             rating = rt,
             manualRating = Some (truthy (property jsonItem ''rating'')),
             stats = playerStats,
             profilePhoto = orElse (property jsonItem ''profilePhoto'') (property jsonItem ''photo''),
             backgroundTheme = validateTheme (orElse (property jsonItem ''theme'')
                                 (property jsonItem ''backgroundTheme'')),
             customLogo = orElse (property jsonItem ''customLogo'') (property jsonItem ''logo''),
             createdAt = Some created,
             updatedAt = Some (NewDate (JNum now)) \<rparr>)))))))))))"

text \<open>The body of the \<open>for\<close> loop of \<open>importFromJSON\<close> behind its progress update.\<close>

definition processJSONItem ::
  "int \<Rightarrow> nat \<Rightarrow> jsval \<Rightarrow> BatchImportResult \<Rightarrow> BatchImportResult" where
  "processJSONItem now i jsonItem result =
     (case parsePlayerDataFromJSON jsonItem i now of
        Inl e \<Rightarrow>
          result\<lparr> errors := errors result
            @ [\<lparr> row = i + 1, rowMessage = errorMessage e, data = Item jsonItem \<rparr>] \<rparr>
      | Inr playerData \<Rightarrow> acceptOrReject (i + 1) (Item jsonItem) playerData result)"

text \<open>The loop \<open>for (let i = 0; i < playersArray.length; i++)\<close>, on the items from \<open>i\<close>
  on; \<open>n\<close> is \<open>playersArray.length\<close>.\<close>

fun jsonItems ::
  "(nat \<Rightarrow> int) \<Rightarrow> nat \<Rightarrow> nat \<Rightarrow> jsval list
     \<Rightarrow> BatchService \<times> BatchImportResult \<Rightarrow> BatchService \<times> BatchImportResult" where
  "jsonItems clock n i [] (st, result) = (st, result)"
| "jsonItems clock n i (jsonItem # rest) (st, result) =
     jsonItems clock n (Suc i) rest
       (updateProgress i n processing (''Processing item '' @ showNat (i + 1) @ ''...'') st,
        processJSONItem (clock i) i jsonItem result)"

definition invalidStructureMessage :: string where
  "invalidStructureMessage =
     ''Invalid JSON structure. Expected array or object with '' @ [CHR 0x22] @ ''cards''
       @ [CHR 0x22] @ ''/'' @ [CHR 0x22] @ ''players'' @ [CHR 0x22] @ '' property''"

text \<open>The three shapes \<open>importFromJSON\<close> takes: an array, or an object whose \<open>cards\<close> or
  \<open>players\<close> is an array. Reading \<open>jsonData.cards\<close> throws when the data is \<open>null\<close>.\<close>

definition playersArrayOf :: "jsval \<Rightarrow> jserror + jsval list" where
  "playersArrayOf jsonData =
     (case jsonData of
        JArr xs \<Rightarrow> Inr xs
      | _ \<Rightarrow>
          bindE (getProp jsonData ''cards'') (\<lambda>cards.
            case cards of
              JArr xs \<Rightarrow> Inr xs
            | _ \<Rightarrow>
                (case property jsonData ''players'' of
                   JArr ys \<Rightarrow> Inr ys
                 | _ \<Rightarrow> Inl (Error invalidStructureMessage))))"

text \<open>\<open>importFromJSON(file)\<close>. \<open>parsed\<close> is what \<open>JSON.parse(await file.text())\<close> gives:
  the value, or the error thrown by the read or the parse.\<close>

definition importFromJSON ::
  "(nat \<Rightarrow> int) \<Rightarrow> jserror + jsval \<Rightarrow> BatchService
     \<Rightarrow> BatchService \<times> (jserror + BatchImportResult)" where
  "importFromJSON clock parsed st0 =
     (let st1 = updateProgress 0 0 processing ''Reading JSON file...'' st0
      in case bindE parsed playersArrayOf of
           Inl e \<Rightarrow> failImport e st1
         | Inr playersArray \<Rightarrow>
             finishImport
               (jsonItems clock (length playersArray) 0 playersArray (st1, emptyResult)))"

subsection \<open>Photo library\<close>

text \<open>
  One entry of \<open>zipContent.files\<close>: its key, the file name; its \<open>dir\<close> flag; and what
  \<open>file.async('blob')\<close> followed by \<open>blobToBase64\<close> gives. \<open>blobToBase64\<close> resolves to
  the result of \<open>FileReader.readAsDataURL\<close>, a URL of the form \<open>data:...\<close>: \<open>dataURL\<close>
  holds the text behind \<open>data:\<close>, and \<open>None\<close> when one of the two promises is rejected.
\<close>

record ZipEntry =
  entryName :: string
  dir :: bool
  dataURL :: "string option"

text \<open>\<open>/\.(jpg|jpeg|png|gif|webp)$/i.test(filename)\<close>: the name ends with a dot and one of
  the five extensions, letter case ignored.\<close>

definition imageExtensions :: "string list" where
  "imageExtensions = [''jpg'', ''jpeg'', ''png'', ''gif'', ''webp'']"

definition endsWithCI :: "string \<Rightarrow> string \<Rightarrow> bool" where
  "endsWithCI ending s =
     (length ending \<le> length s
      \<and> map toUpperChar (drop (length s - length ending) s) = map toUpperChar ending)"

definition isImageName :: "string \<Rightarrow> bool" where
  "isImageName filename = list_ex (\<lambda>ext. endsWithCI (CHR ''.'' # ext) filename) imageExtensions"

text \<open>\<open>filename.replace(/\.[^/.]+$/, '')\<close>: a match is a dot followed, up to the end, by
  one or more code units that are neither a slash nor a dot, so it starts at the last
  dot of the name; it is cut off. A name without such an ending is left as it is.\<close>

definition stripExtension :: "string \<Rightarrow> string" where
  "stripExtension filename =
     (let ending = rev (takeWhile (\<lambda>c. c \<noteq> CHR ''.'') (rev filename))
      in if length ending < length filename \<and> ending \<noteq> [] \<and> CHR ''/'' \<notin> set ending
         then take (length filename - length ending - 1) filename
         else filename)"

text \<open>A \<open>Map\<close> under construction, as the list of its entries in insertion order:
  \<open>map.set(key, value)\<close> replaces the value of a key that is present and appends a new
  key; \<open>map.size\<close> is the length of the list, \<open>map.get\<close> is \<open>map_of\<close>.\<close>

fun Map_set :: "'k \<Rightarrow> 'v \<Rightarrow> ('k \<times> 'v) list \<Rightarrow> ('k \<times> 'v) list" where
  "Map_set key v [] = [(key, v)]"
| "Map_set key v ((k, w) # kvs) = (if k = key then (key, v) # kvs else (k, w) # Map_set key v kvs)"

text \<open>The loop \<open>for (let i = 0; i < imageFiles.length; i++)\<close>, on the files from \<open>i\<close>
  on; \<open>n\<close> is \<open>imageFiles.length\<close>. The inner \<open>catch\<close> logs a file that cannot be read
  and goes on.\<close>

fun photoFiles ::
  "nat \<Rightarrow> nat \<Rightarrow> ZipEntry list
     \<Rightarrow> BatchService \<times> (string \<times> string) list \<Rightarrow> BatchService \<times> (string \<times> string) list" where
  "photoFiles n i [] (st, photoMap) = (st, photoMap)"
| "photoFiles n i (file # rest) (st, photoMap) =
     photoFiles n (Suc i) rest
       (updateProgress i n processing (''Processing '' @ entryName file @ ''...'') st,
        case dataURL file of
          None \<Rightarrow> photoMap
        | Some url \<Rightarrow>
            (let base64 = ''data:'' @ url;
                 key = toLowerCase (stripExtension (entryName file))
             in Map_set key base64 photoMap))"

text \<open>
  \<open>importPhotoLibrary(file)\<close>. \<open>zipContent\<close> is what \<open>await zip.loadAsync(file)\<close> gives:
  the entries of the archive, or the error it rejects with. The result is the new
  state and what the promise settles to: the map of the photos, or the error thrown.
\<close>

definition importPhotoLibrary ::
  "jserror + ZipEntry list \<Rightarrow> BatchService
     \<Rightarrow> BatchService \<times> (jserror + (string \<times> string) list)" where
  "importPhotoLibrary zipContent st0 =
     (let st1 = updateProgress 0 0 processing ''Extracting photos from ZIP...'' st0
      in case zipContent of
           Inl e \<Rightarrow> (updateProgress 0 0 error (errorMessage e) st1, Inl e)
         | Inr files \<Rightarrow>
             (let imageFiles = filter (\<lambda>file. isImageName (entryName file) \<and> \<not> dir file) files;
                  (st2, photoMap) = photoFiles (length imageFiles) 0 imageFiles (st1, []);
                  st3 = st2\<lparr> photoLibrary := map_of photoMap \<rparr>
              in (updateProgress (length photoMap) (length photoMap) completed
                    (''Loaded '' @ showNat (length photoMap) @ '' photos'') st3,
                  Inr photoMap)))"

subsection \<open>Photo matching\<close>

text \<open>The key of a name: \<open>card.name.toLowerCase().replace(/\s+/g, '_')\<close>.\<close>

definition photoKey :: "string \<Rightarrow> string" where
  "photoKey nm = replaceWhiteSpaceRuns ''_'' (toLowerCase nm)"

text \<open>\<open>matchPhotosToPlayers()\<close>: \<open>!card.profilePhoto\<close> holds for a photo that is falsy,
  and \<open>if (photo)\<close> for an image found that is not the empty string.\<close>

definition matchPhoto :: "(string \<rightharpoonup> string) \<Rightarrow> PlayerData \<Rightarrow> PlayerData" where
  "matchPhoto photos card' =
     (if \<not> truthy (profilePhoto card')
      then (let key = photoKey (name card')
            in case photos key of
                 Some photo \<Rightarrow> if photo \<noteq> [] then card'\<lparr> profilePhoto := JStr photo \<rparr> else card'
               | None \<Rightarrow> card')
      else card')"

definition matchPhotosToPlayers :: "BatchService \<Rightarrow> BatchService" where
  "matchPhotosToPlayers st =
     (let cards = batchCards st;
          photos = photoLibrary st;
          updatedCards = map (matchPhoto photos) cards
      in st\<lparr> batchCards := updatedCards \<rparr>)"

subsection \<open>Clearing the batch\<close>

text \<open>\<open>clearBatch()\<close>: no cards, an empty library, and the progress \<open>idle\<close>.\<close>

definition clearBatch :: "BatchService \<Rightarrow> BatchService" where
  "clearBatch st =
     updateProgress 0 0 idle [] (st\<lparr> batchCards := [], photoLibrary := Map.empty \<rparr>)"

section \<open>Notions used in the statements\<close>

text \<open>A word occurs in a string, letter case ignored: as a block of neighbours.\<close>

definition occursCI :: "string \<Rightarrow> string \<Rightarrow> bool" where
  "occursCI word s = sublist (map toUpperChar word) (map toUpperChar s)"

text \<open>The loop over the blocked words in \<open>sanitizeInput\<close>, on its own.\<close>

definition maskBlockedWords :: "string \<Rightarrow> string" where
  "maskBlockedWords s = foldl (\<lambda>acc word. replaceAllCI word ''***'' acc) s blockedWords"

text \<open>Two results put together, and a list of results merged in order.\<close>

definition appendResult :: "BatchImportResult \<Rightarrow> BatchImportResult \<Rightarrow> BatchImportResult" where
  "appendResult a b =
     \<lparr> success = success a @ success b, errors = errors a @ errors b,
       warnings = warnings a @ warnings b \<rparr>"

definition mergeResults :: "BatchImportResult list \<Rightarrow> BatchImportResult" where
  "mergeResults rs =
     \<lparr> success = concat (map success rs), errors = concat (map errors rs),
       warnings = concat (map warnings rs) \<rparr>"

text \<open>What a CSV row, and a JSON item, yields when it is processed on its own,
  from the empty result.\<close>

definition csvRowAlone :: "string list \<Rightarrow> int \<Rightarrow> nat \<Rightarrow> string \<Rightarrow> BatchImportResult" where
  "csvRowAlone headers now i line = processCSVRow headers now i line emptyResult"

definition jsonItemAlone :: "int \<Rightarrow> nat \<Rightarrow> jsval \<Rightarrow> BatchImportResult" where
  "jsonItemAlone now i jsonItem = processJSONItem now i jsonItem emptyResult"

text \<open>The top-level shapes \<open>importFromJSON\<close> recognizes.\<close>

definition isArray :: "jsval \<Rightarrow> bool" where
  "isArray v = (case v of JArr xs \<Rightarrow> True | _ \<Rightarrow> False)"

definition recognizedShape :: "jsval \<Rightarrow> bool" where
  "recognizedShape jsonData =
     (isArray jsonData \<or> isArray (property jsonData ''cards'')
        \<or> isArray (property jsonData ''players''))"

text \<open>The pipeline-level failures: the file cannot be read, it has no line that is not
  blank, or one of \<open>name\<close>, \<open>position\<close>, \<open>nationality\<close> is no header; the JSON cannot
  be read or parsed, or its top level has none of the three shapes.\<close>

definition csvPipelineFailure :: "jserror + string \<Rightarrow> bool" where
  "csvPipelineFailure fileText =
     (case fileText of
        Inl e \<Rightarrow> True
      | Inr text \<Rightarrow>
          csvLines text = [] \<or> \<not> set requiredFields \<subseteq> set (csvHeaders (csvLines text)))"

definition jsonPipelineFailure :: "jserror + jsval \<Rightarrow> bool" where
  "jsonPipelineFailure parsed =
     (case parsed of Inl e \<Rightarrow> True | Inr jsonData \<Rightarrow> \<not> recognizedShape jsonData)"

text \<open>An import was aborted with the error \<open>e\<close>: the last progress snapshot is the
  error, and the cards of the batch are those from before the call.\<close>

definition aborted :: "BatchService \<Rightarrow> BatchService \<Rightarrow> jserror \<Rightarrow> bool" where
  "aborted st st' e =
     (last (batchProgress st') = \<lparr> current = 0, total = 0, status = error, message = errorMessage e \<rparr>
      \<and> batchCards st' = batchCards st)"

text \<open>The \<open>k\<close>-th value that the closure of \<open>seededRandom(seed)\<close> returns (the first
  one is \<open>k = 1\<close>), and the first \<open>n\<close> values that a generator returns.\<close>

definition seededDraw :: "string \<Rightarrow> nat \<Rightarrow> rat" where
  "seededDraw seed k = lcgValue ((lcgNext ^^ k) (seededRandom seed))"

fun rngStream :: "(nat \<Rightarrow> rat) \<Rightarrow> rng \<Rightarrow> nat \<Rightarrow> rat list" where
  "rngStream random g 0 = []"
| "rngStream random g (Suc n) = fst (callRng random g) # rngStream random (snd (callRng random g)) n"

text \<open>
  The states the service can be in: the one it is constructed with, and those its
  methods lead to. \<open>importPhotoLibrary\<close> and \<open>clearBatch\<close> are the only methods that
  give the library subject a new map.
\<close>

inductive reachable :: "BatchService \<Rightarrow> bool" where
  constructed: "reachable initialBatchService"
| afterImportFromCSV: "reachable st \<Longrightarrow> reachable (fst (importFromCSV clock fileText st))"
| afterImportFromJSON: "reachable st \<Longrightarrow> reachable (fst (importFromJSON clock parsed st))"
| afterImportPhotoLibrary: "reachable st \<Longrightarrow> reachable (fst (importPhotoLibrary zipContent st))"
| afterMatchPhotosToPlayers: "reachable st \<Longrightarrow> reachable (matchPhotosToPlayers st)"
| afterClearBatch: "reachable st \<Longrightarrow> reachable (clearBatch st)"

text \<open>Every image of a library is a \<open>data:\<close> URL.\<close>

definition storesDataURLs :: "(string \<rightharpoonup> string) \<Rightarrow> bool" where
  "storesDataURLs photos = (\<forall>photo \<in> ran photos. prefix ''data:'' photo)"

subsection \<open>Sample inputs\<close>

text \<open>A card without a photo, as the CSV import builds it for a row \<open>John Smith,DEV,GB\<close>.\<close>

definition johnSmith :: PlayerData where
  "johnSmith =
     \<lparr> id' = JStr ''batch_1_0'', name = ''John Smith'', position = ''DEV'', nationality = ''GB'',
       rating = 75, manualRating = Some False,
       stats = \<lparr> technical = 75, leadership = 75, creativity = 75,
                 reliability = 75, collaboration = 75, adaptability = 75 \<rparr>,
       profilePhoto = JUndefined, backgroundTheme = ''gold-classic'', customLogo = JUndefined,
       createdAt = Some (NewDate (JNum 0)), updatedAt = Some (NewDate (JNum 0)) \<rparr>"

text \<open>An archive with a photo of John Smith, a text file, a folder and a photo that
  cannot be read; and a card with an accented capital, a tab and two blanks in its
  name.\<close>

definition sampleZip :: "ZipEntry list" where
  "sampleZip =
     [\<lparr> entryName = ''John_Smith.PNG'', dir = False, dataURL = Some ''image/png;base64,iVBORw=='' \<rparr>,
      \<lparr> entryName = ''notes.txt'', dir = False, dataURL = Some ''text/plain;base64,aGk='' \<rparr>,
      \<lparr> entryName = ''photos/'', dir = True, dataURL = None \<rparr>,
      \<lparr> entryName = ''ann_lee.jpeg'', dir = False, dataURL = None \<rparr>]"

definition ericBlanc :: PlayerData where
  "ericBlanc = johnSmith\<lparr> name := [CHR 0xC9] @ ''ric'' @ [CHR 0x09] @ ''  Blanc'' \<rparr>"

text \<open>A JSON item with a rating \<open>r\<close> and one nested stat.\<close>

definition bobItem :: "jsval \<Rightarrow> jsval" where
  "bobItem r = JObj [(''name'', JStr ''Bob''), (''position'', JStr ''qa''),
                     (''nationality'', JStr ''fr''), (''rating'', r),
                     (''stats'', JObj [(''technical'', JNum 99)])]"

text \<open>A CSV file of three rows, the second one without a name, and its header.\<close>

definition sampleCSV :: string where
  "sampleCSV = ''name,position,nationality'' @ [CHR 0x0A] @ ''Ann,DEV,FR'' @ [CHR 0x0A]
       @ '',DEV,FR'' @ [CHR 0x0A] @ ''Bob,QA,GB''"

definition sampleHeaders :: "string list" where
  "sampleHeaders = [''name'', ''position'', ''nationality'']"

text \<open>The card of a row of the sample that gives a name, a position and a nationality
  only, read at time 0, and what the import of the sample returns.\<close>

definition sampleCard :: "nat \<Rightarrow> string \<Rightarrow> string \<Rightarrow> string \<Rightarrow> PlayerData" where
  "sampleCard i nm pos natl =
     \<lparr> id' = JStr (''batch_'' @ showNat i @ ''_'' @ showInt 0),
       name = nm, position = pos, nationality = natl, rating = 75, manualRating = Some False,
       stats = \<lparr> technical = 75, leadership = 75, creativity = 75,
                 reliability = 75, collaboration = 75, adaptability = 75 \<rparr>,
       profilePhoto = JUndefined, backgroundTheme = ''gold-classic'', customLogo = JUndefined,
       createdAt = Some (NewDate (JNum 0)), updatedAt = Some (NewDate (JNum 0)) \<rparr>"

definition sampleResult :: BatchImportResult where
  "sampleResult =
     \<lparr> success = [sampleCard 1 ''Ann'' ''DEV'' ''FR'', sampleCard 3 ''Bob'' ''QA'' ''GB''],
       errors = [\<lparr> row = 2, rowMessage = ''Name is required'', data = Cells ['''', ''DEV'', ''FR''] \<rparr>],
       warnings = [] \<rparr>"

text \<open>A JSON file of two items, the second one \<open>null\<close>; the card of the first, and
  what the import returns.\<close>

definition bobCard :: "nat \<Rightarrow> int \<Rightarrow> PlayerData" where
  "bobCard i now =
     \<lparr> id' = JStr (''batch_json_'' @ showNat i @ ''_'' @ showInt now),
       name = ''Bob'', position = ''QA'', nationality = ''FR'', rating = 79,
       manualRating = Some False,
       stats = \<lparr> technical = 99, leadership = 75, creativity = 75,
                 reliability = 75, collaboration = 75, adaptability = 75 \<rparr>,
       profilePhoto = JUndefined, backgroundTheme = ''gold-classic'', customLogo = JUndefined,
       createdAt = Some (NewDate (JNum now)), updatedAt = Some (NewDate (JNum now)) \<rparr>"

definition sampleJSON :: jsval where
  "sampleJSON = JObj [(''players'', JArr [bobItem (JNum 0), JNull])]"

definition sampleJSONResult :: BatchImportResult where
  "sampleJSONResult =
     \<lparr> success = [bobCard 0 0],
       errors = [\<lparr> row = 2,
                  rowMessage = ''Cannot read properties of null or undefined: technical'',
                  data = Item JNull \<rparr>],
       warnings = [] \<rparr>"

text \<open>A CSV file without the header \<open>name\<close>.\<close>

definition noRequiredHeader :: string where
  "noRequiredHeader = ''position,nationality'' @ [CHR 0x0A] @ ''DEV,FR''"

text \<open>The argument \<open>{}\<close> of \<open>updatePlayer\<close>: no key at all.\<close>

definition noKeys :: PartialPlayerData where
  "noKeys =
     \<lparr> has_id = None, has_name = None, has_position = None, has_nationality = None,
       has_rating = None, has_manualRating = None, has_stats = None, has_profilePhoto = None,
       has_backgroundTheme = None, has_customLogo = None, has_createdAt = None,
       has_updatedAt = None \<rparr>"

text \<open>A card with a manual rating of 99 over stats of 75.\<close>

definition manualCard :: PlayerData where
  "manualCard = johnSmith\<lparr> rating := 99, manualRating := Some True \<rparr>"

text \<open>Two runs of \<open>Math.random\<close>: one returns 0.5 and 0.25 in turn, the other 0.5
  every time.\<close>

definition randomA :: "nat \<Rightarrow> rat" where
  "randomA k = (if even k then 1 / 2 else 1 / 4)"

definition randomB :: "nat \<Rightarrow> rat" where
  "randomB k = 1 / 2"

section \<open>Rating aggregation\<close>

lemma calculateOverallRating_div:
  "calculateOverallRating s =
     (technical s + leadership s + creativity s + reliability s + collaboration s
        + adaptability s + 3) div 6"
proof -
  let ?S = "technical s + leadership s + creativity s + reliability s + collaboration s
        + adaptability s"
  have "rat_of_int ?S / 6 + 1 / 2 = rat_of_int (?S + 3) / rat_of_int 6"
    by (simp add: field_simps)
  then have "\<lfloor>rat_of_int ?S / 6 + 1 / 2\<rfloor> = (?S + 3) div 6"
    by (simp only: floor_divide_of_int_eq)
  then show ?thesis
    by (simp add: calculateOverallRating_def Object_values_def Math_round_def Let_def)
qed

lemma sum_list_Object_values:
  "sum_list (Object_values s) =
     technical s + leadership s + creativity s + reliability s + collaboration s + adaptability s"
  by (simp add: Object_values_def add.assoc)

lemma round_sixth: "round (real_of_int S / 6) = (S + 3) div 6"
proof -
  have "real_of_int S / 6 + 1 / 2 = real_of_int (S + 3) / real_of_int 6"
    by (simp add: field_simps)
  then have "\<lfloor>real_of_int S / 6 + 1 / 2\<rfloor> = (S + 3) div 6"
    by (simp only: floor_divide_of_int_eq)
  then show ?thesis by (simp add: round_def)
qed

text \<open>
  C3. For six integer skills, each from 1 to 99, \<open>calculateOverallRating\<close> returns
  the mean of the six rounded to the nearest integer (\<open>round\<close> of the reals, a tie
  going up): the result \<open>r\<close> is the integer with \<open>6r - 3 \<le> sum < 6r + 3\<close>. It lies
  between 1 and 99.
\<close>

theorem calculateOverallRating_rounded_mean:
  assumes "\<forall>v \<in> set (Object_values s). 1 \<le> v \<and> v \<le> 99"
  shows "calculateOverallRating s = round (real_of_int (sum_list (Object_values s)) / 6)
       \<and> 6 * calculateOverallRating s - 3 \<le> sum_list (Object_values s)
       \<and> sum_list (Object_values s) < 6 * calculateOverallRating s + 3
       \<and> 1 \<le> calculateOverallRating s \<and> calculateOverallRating s \<le> 99"
proof -
  let ?S = "sum_list (Object_values s)"
  have r: "calculateOverallRating s = (?S + 3) div 6"
    by (simp add: calculateOverallRating_div sum_list_Object_values)
  have lo: "6 \<le> ?S" and hi: "?S \<le> 594"
    using assms by (auto simp: Object_values_def)
  show ?thesis
    unfolding r round_sixth using lo hi by presburger
qed

text \<open>The example of the README: skills 80, 75, 85, 70, 90, 80 give the rating 80.\<close>

theorem calculateOverallRating_rounded_mean_witness:
  "calculateOverallRating \<lparr>technical = 80, leadership = 75, creativity = 85,
        reliability = 70, collaboration = 90, adaptability = 80\<rparr> = round (480 / 6 :: real)
   \<and> calculateOverallRating \<lparr>technical = 80, leadership = 75, creativity = 85,
        reliability = 70, collaboration = 90, adaptability = 80\<rparr> = 80"
proof -
  let ?s = "\<lparr>technical = 80, leadership = 75, creativity = 85,
        reliability = 70, collaboration = 90, adaptability = 80 :: int\<rparr>"
  have range: "\<forall>v \<in> set (Object_values ?s). 1 \<le> v \<and> v \<le> 99"
    by (simp add: Object_values_def)
  have sum: "sum_list (Object_values ?s) = 480"
    by (simp add: Object_values_def)
  from calculateOverallRating_rounded_mean [OF range]
  have "calculateOverallRating ?s = round (480 / 6 :: real)
      \<and> 6 * calculateOverallRating ?s - 3 \<le> 480 \<and> 480 < 6 * calculateOverallRating ?s + 3"
    unfolding sum by simp
  then show ?thesis by auto
qed

section \<open>Theme validation\<close>

text \<open>
  C6. \<open>validateTheme\<close> keeps a theme of its list of known themes and replaces any
  other by \<open>gold-classic\<close>. The list holds gold-classic, dark-mode-it, silver-modern and
  bronze-vintage; \<open>totw\<close>, a \<open>CardTheme\<close> of the model and a template of
  \<open>CardService\<close>, is not in it, so an imported \<open>totw\<close> card comes out as gold-classic.
\<close>

theorem validateTheme_totw:
  "validateTheme (JStr ''totw'') = ''gold-classic''
   \<and> validateTheme (JStr ''totw'') \<noteq> ''totw''"
  by (simp add: validateTheme_def validThemes_def)

section \<open>Sanitizing text\<close>

lemma matchesAt_prefix:
  "matchesAt word s \<longleftrightarrow> prefix (map toUpperChar word) (map toUpperChar s)"
proof
  assume "matchesAt word s"
  then have "take (length word) (map toUpperChar s) = map toUpperChar word"
    by (simp add: matchesAt_def take_map)
  then show "prefix (map toUpperChar word) (map toUpperChar s)"
    by (metis take_is_prefix)
next
  assume "prefix (map toUpperChar word) (map toUpperChar s)"
  then obtain zs where zs: "map toUpperChar s = map toUpperChar word @ zs"
    by (auto simp: prefix_def)
  then have "length word \<le> length s"
    by (metis length_append length_map le_add1)
  moreover have "take (length word) (map toUpperChar s) = map toUpperChar word"
    using zs by simp
  ultimately show "matchesAt word s"
    by (simp add: matchesAt_def take_map)
qed

lemma charCode_less: "charCode c < 256"
  by (simp add: charCode_def)

lemma charCode_eq_iff: "charCode a = charCode b \<longleftrightarrow> a = b"
  unfolding charCode_def by (rule of_char_eq_iff)

lemma charCode_toUpperChar:
  "charCode (toUpperChar c) =
     (if 97 \<le> charCode c \<and> charCode c \<le> 122 then charCode c - 32 else charCode c)"
proof -
  have "(charCode c - 32) mod 256 = charCode c - 32"
    using charCode_less [of c] by simp
  then show ?thesis
    by (simp add: toUpperChar_def) (simp add: charCode_def)
qed

lemma toUpperChar_eq_star [simp]: "toUpperChar c = CHR ''*'' \<longleftrightarrow> c = CHR ''*''"
proof -
  have s: "charCode (CHR ''*'') = 42" by (simp add: charCode_def)
  have "toUpperChar c = CHR ''*'' \<longleftrightarrow> charCode (toUpperChar c) = charCode (CHR ''*'')"
    by (simp only: charCode_eq_iff)
  also have "\<dots> \<longleftrightarrow> charCode c = charCode (CHR ''*'')"
    unfolding s charCode_toUpperChar by auto
  finally show ?thesis by (simp only: charCode_eq_iff)
qed

lemma toUpperChar_eq_dot [simp]: "toUpperChar c = CHR ''.'' \<longleftrightarrow> c = CHR ''.''"
proof -
  have s: "charCode (CHR ''.'') = 46" by (simp add: charCode_def)
  have "toUpperChar c = CHR ''.'' \<longleftrightarrow> charCode (toUpperChar c) = charCode (CHR ''.'')"
    by (simp only: charCode_eq_iff)
  also have "\<dots> \<longleftrightarrow> charCode c = charCode (CHR ''.'')"
    unfolding s charCode_toUpperChar by auto
  finally show ?thesis by (simp only: charCode_eq_iff)
qed

lemma toUpperChar_star [simp]: "toUpperChar (CHR ''*'') = CHR ''*''"
  by simp

lemma star_eq_toUpperChar [simp]: "CHR ''*'' = toUpperChar c \<longleftrightarrow> c = CHR ''*''"
  using toUpperChar_eq_star [of c] by (simp only: eq_commute)

lemma dot_eq_toUpperChar [simp]: "CHR ''.'' = toUpperChar c \<longleftrightarrow> c = CHR ''.''"
  using toUpperChar_eq_dot [of c] by (simp only: eq_commute)

lemma toUpperChar_dot [simp]: "toUpperChar (CHR ''.'') = CHR ''.''"
  by simp

lemma star_notin_upper [simp]:
  "CHR ''*'' \<in> set (map toUpperChar w) \<longleftrightarrow> CHR ''*'' \<in> set w"
  by (induction w) (auto simp: eq_commute [of "CHR ''*''"])

lemma dot_notin_upper [simp]:
  "CHR ''.'' \<in> set (map toUpperChar w) \<longleftrightarrow> CHR ''.'' \<in> set w"
  by (induction w) (auto simp: eq_commute [of "CHR ''.''"])

lemma prefix_replaceAllCI:
  "CHR ''*'' \<notin> set X \<Longrightarrow> prefix X (map toUpperChar (replaceAllCI word ''***'' t))
     \<Longrightarrow> prefix X (map toUpperChar t)"
proof (induction t arbitrary: X)
  case Nil
  then show ?case by simp
next
  case (Cons c cs)
  show ?case
  proof (cases X)
    case Nil
    then show ?thesis by simp
  next
    case (Cons x X')
    show ?thesis
    proof (cases "word \<noteq> [] \<and> matchesAt word (c # cs)")
      case True
      with Cons.prems Cons show ?thesis by auto
    next
      case False
      with Cons.prems Cons have "x = toUpperChar c"
        and "prefix X' (map toUpperChar (replaceAllCI word ''***'' cs))"
        and "CHR ''*'' \<notin> set X'"
        by auto
      with Cons.IH [of X'] Cons show ?thesis by simp
    qed
  qed
qed

lemma sublist_replaceAllCI_aux:
  "repl = ''***'' \<Longrightarrow> CHR ''*'' \<notin> set X \<Longrightarrow> X \<noteq> []
     \<Longrightarrow> sublist X (map toUpperChar (replaceAllCI word repl s))
     \<Longrightarrow> sublist X (map toUpperChar s)"
proof (induction word repl s rule: replaceAllCI.induct)
  case (1 word repl)
  then show ?case by simp
next
  case (2 word repl c cs)
  note repl = "2.prems"(1) and star = "2.prems"(2) and ne = "2.prems"(3)
  show ?case
  proof (cases "word \<noteq> [] \<and> matchesAt word (c # cs)")
    case True
    from star ne have nopre: "\<And>ys. \<not> prefix X (CHR ''*'' # ys)"
      by (cases X) auto
    from True "2.prems"(4) repl
    have "sublist X (''***'' @ map toUpperChar (replaceAllCI word repl (drop (length word) (c # cs))))"
      by simp
    then have "sublist X (map toUpperChar (replaceAllCI word repl (drop (length word) (c # cs))))"
      using nopre by (simp add: sublist_Cons_right)
    with "2.IH"(1) [OF True repl star ne]
    have "sublist X (map toUpperChar (drop (length word) (c # cs)))" .
    moreover have "sublist (map toUpperChar (drop (length word) (c # cs))) (map toUpperChar (c # cs))"
      by (simp only: drop_map [symmetric] sublist_drop)
    ultimately show ?thesis by (rule sublist_order.order.trans)
  next
    case False
    then have eq: "replaceAllCI word repl (c # cs) = c # replaceAllCI word repl cs"
      by auto
    with "2.prems"(4)
    have "sublist X (map toUpperChar (c # replaceAllCI word repl cs))" by simp
    then consider "prefix X (map toUpperChar (c # replaceAllCI word repl cs))"
      | "sublist X (map toUpperChar (replaceAllCI word repl cs))"
      by (auto simp: sublist_Cons_right)
    then show ?thesis
    proof cases
      case 1
      with eq repl have "prefix X (map toUpperChar (replaceAllCI word ''***'' (c # cs)))" by simp
      from prefix_replaceAllCI [OF star this] show ?thesis by (rule prefix_imp_sublist)
    next
      case 2
      with "2.IH"(2) [OF False repl star ne]
      have "sublist X (map toUpperChar cs)" .
      then show ?thesis by (simp add: sublist_Cons_right)
    qed
  qed
qed

lemma not_sublist_replaceAllCI_aux:
  "repl = ''***'' \<Longrightarrow> word \<noteq> [] \<Longrightarrow> CHR ''*'' \<notin> set (map toUpperChar word)
     \<Longrightarrow> \<not> sublist (map toUpperChar word) (map toUpperChar (replaceAllCI word repl s))"
proof (induction word repl s rule: replaceAllCI.induct)
  case (1 word repl)
  then show ?case by simp
next
  case (2 word repl c cs)
  note repl = "2.prems"(1) and ne = "2.prems"(2) and star = "2.prems"(3)
  let ?X = "map toUpperChar word"
  show ?case
  proof (cases "word \<noteq> [] \<and> matchesAt word (c # cs)")
    case True
    then have eq: "replaceAllCI word repl (c # cs)
        = repl @ replaceAllCI word repl (drop (length word) (c # cs))"
      by auto
    from ne star have nopre: "\<And>ys. \<not> prefix ?X (CHR ''*'' # ys)"
      by (cases word) auto
    from "2.IH"(1) [OF True repl ne star]
    have "\<not> sublist ?X (map toUpperChar (replaceAllCI word repl (drop (length word) (c # cs))))" .
    with nopre repl show ?thesis unfolding eq by (simp add: sublist_Cons_right)
  next
    case False
    then have eq: "replaceAllCI word repl (c # cs) = c # replaceAllCI word repl cs"
      by auto
    from "2.IH"(2) [OF False repl ne star]
    have ih: "\<not> sublist ?X (map toUpperChar (replaceAllCI word repl cs))" .
    have "\<not> prefix ?X (map toUpperChar (replaceAllCI word repl (c # cs)))"
    proof
      assume "prefix ?X (map toUpperChar (replaceAllCI word repl (c # cs)))"
      with repl have "prefix ?X (map toUpperChar (replaceAllCI word ''***'' (c # cs)))" by simp
      from prefix_replaceAllCI [OF star this]
      have "matchesAt word (c # cs)" by (simp add: matchesAt_prefix)
      with False ne show False by simp
    qed
    with ih show ?thesis unfolding eq by (simp add: sublist_Cons_right)
  qed
qed


lemma not_occursCI_replaceAllCI:
  "word \<noteq> [] \<Longrightarrow> CHR ''*'' \<notin> set (map toUpperChar word)
     \<Longrightarrow> \<not> occursCI word (replaceAllCI word ''***'' s)"
  by (simp only: occursCI_def not_sublist_replaceAllCI_aux [OF refl] not_False_eq_True)

lemma occursCI_replaceAllCI:
  "word \<noteq> [] \<Longrightarrow> CHR ''*'' \<notin> set (map toUpperChar word)
     \<Longrightarrow> occursCI word (replaceAllCI other ''***'' s) \<Longrightarrow> occursCI word s"
  unfolding occursCI_def
  by (rule sublist_replaceAllCI_aux [OF refl]) simp_all

lemma occursCI_truncate:
  assumes "CHR ''.'' \<notin> set (map toUpperChar word)"
    and "occursCI word (take n s @ ''...'')"
  shows "occursCI word s"
proof -
  let ?X = "map toUpperChar word"
  have nodots: "xs2 = []" if "prefix xs2 ''...''" and "set xs2 \<subseteq> set ?X" for xs2
  proof (cases xs2)
    case Nil
    then show ?thesis .
  next
    case (Cons x xs)
    with that(1) have "x = CHR ''.''" by simp
    with that(2) Cons assms(1) show ?thesis by auto
  qed
  from assms(2) have "sublist ?X (map toUpperChar (take n s) @ ''...'')"
    by (simp add: occursCI_def)
  then consider "sublist ?X (map toUpperChar (take n s))" | "sublist ?X ''...''"
    | xs1 xs2 where "?X = xs1 @ xs2" "suffix xs1 (map toUpperChar (take n s))" "prefix xs2 ''...''"
    by (auto simp: sublist_append)
  then have "sublist ?X (map toUpperChar (take n s))"
  proof cases
    case 1
    then show ?thesis .
  next
    case 2
    then obtain ps ss where "''...'' = ps @ ?X @ ss" by (auto simp: sublist_def)
    then have "set ?X \<subseteq> {CHR ''.''}"
      by (metis Un_iff empty_set list.simps(15) set_append subsetI insert_absorb2)
    with assms(1) have "?X = []" by (cases ?X) auto
    then show ?thesis by simp
  next
    case 3
    from nodots [OF 3(3)] 3(1) have "xs2 = []" by auto
    with 3 show ?thesis by auto
  qed
  moreover have "sublist (map toUpperChar (take n s)) (map toUpperChar s)"
    by (simp only: take_map [symmetric] sublist_take)
  ultimately show ?thesis
    unfolding occursCI_def by (rule sublist_order.order.trans)
qed

lemma blocked_word_chars:
  "word \<in> set blockedWords \<Longrightarrow>
     word \<noteq> [] \<and> CHR ''*'' \<notin> set (map toUpperChar word) \<and> CHR ''.'' \<notin> set (map toUpperChar word)"
  by (auto simp: blockedWords_def)

lemma maskBlockedWords_clean:
  assumes "word \<in> set blockedWords"
  shows "\<not> occursCI word (maskBlockedWords s)"
proof -
  note c = blocked_word_chars
  have m: "maskBlockedWords s =
      replaceAllCI ''fake'' ''***'' (replaceAllCI ''dummy'' ''***'' (replaceAllCI ''test'' ''***'' s))"
    by (simp add: maskBlockedWords_def blockedWords_def)
  from assms consider "word = ''test''" | "word = ''dummy''" | "word = ''fake''"
    by (auto simp: blockedWords_def)
  then show ?thesis
  proof cases
    case 1
    have "\<not> occursCI ''test'' (replaceAllCI ''test'' ''***'' s)"
      by (rule not_occursCI_replaceAllCI) simp_all
    then show ?thesis unfolding m 1
      using occursCI_replaceAllCI c [OF assms] 1 by blast
  next
    case 2
    have "\<not> occursCI ''dummy'' (replaceAllCI ''dummy'' ''***'' (replaceAllCI ''test'' ''***'' s))"
      by (rule not_occursCI_replaceAllCI) simp_all
    then show ?thesis unfolding m 2
      using occursCI_replaceAllCI c [OF assms] 2 by blast
  next
    case 3
    show ?thesis unfolding m 3
      by (rule not_occursCI_replaceAllCI) simp_all
  qed
qed

lemma sanitizeInput_mask:
  "sanitizeInput input maxLength =
     (if int (length (maskBlockedWords (trim input))) > maxLength
      then take (nat (maxLength - 3)) (maskBlockedWords (trim input)) @ ''...''
      else maskBlockedWords (trim input))"
  by (simp add: sanitizeInput_def maskBlockedWords_def substring0_def Let_def)

lemma trim_ends:
  "trim s = [] \<or> (\<not> isWhiteSpace (hd (trim s)) \<and> \<not> isWhiteSpace (last (trim s)))"
proof (cases "trim s = []")
  case True
  then show ?thesis by simp
next
  case False
  let ?a = "dropWhile isWhiteSpace s"
  let ?b = "dropWhile isWhiteSpace (rev ?a)"
  from False have b: "?b \<noteq> []" by (simp add: trim_def)
  have a: "?a \<noteq> []"
  proof
    assume "?a = []"
    then have "?b = []" by (simp only: rev.simps(1) dropWhile.simps(1))
    with b show False by (simp only: not_True_eq_False)
  qed
  have "last (trim s) = hd ?b" using b by (simp add: trim_def last_rev)
  then have l: "\<not> isWhiteSpace (last (trim s))" using hd_dropWhile [OF b] by simp
  obtain ys where ys: "rev ?a = ys @ ?b"
    by (metis takeWhile_dropWhile_id)
  have "hd (trim s) = last ?b" using b by (simp add: trim_def hd_rev)
  also have "\<dots> = last (rev ?a)" using b by (subst ys) simp
  also have "\<dots> = hd ?a" using a by (simp add: last_rev)
  finally have "\<not> isWhiteSpace (hd (trim s))" using hd_dropWhile [OF a] by simp
  with l show ?thesis by simp
qed

text \<open>
  C7, for a \<open>maxLength\<close> of at least 3. \<open>sanitizeInput\<close> works on the trimmed input
  (which neither starts nor ends with white space), masks the blocked words, so that no
  blocked word occurs in the result in any letter case, and returns at most \<open>maxLength\<close>
  characters: a masked text longer than \<open>maxLength\<close> is cut to its first
  \<open>maxLength - 3\<close> characters followed by \<open>...\<close>, which makes exactly \<open>maxLength\<close>;
  a shorter one is returned as it is.
\<close>

theorem sanitizeInput_bounded:
  assumes "3 \<le> maxLength"
  shows "int (length (sanitizeInput input maxLength)) \<le> maxLength
       \<and> (\<forall>word \<in> set blockedWords. \<not> occursCI word (sanitizeInput input maxLength))
       \<and> (if int (length (maskBlockedWords (trim input))) > maxLength
          then sanitizeInput input maxLength
                 = take (nat (maxLength - 3)) (maskBlockedWords (trim input)) @ ''...''
               \<and> int (length (sanitizeInput input maxLength)) = maxLength
          else sanitizeInput input maxLength = maskBlockedWords (trim input))
       \<and> (\<forall>word \<in> set blockedWords. \<not> occursCI word (maskBlockedWords (trim input)))
       \<and> (trim input = [] \<or>
            (\<not> isWhiteSpace (hd (trim input)) \<and> \<not> isWhiteSpace (last (trim input))))"
proof -
  let ?m = "maskBlockedWords (trim input)"
  have len: "int (length (sanitizeInput input maxLength)) = maxLength"
    if "int (length ?m) > maxLength"
    using that assms by (simp add: sanitizeInput_mask)
  have bound: "int (length (sanitizeInput input maxLength)) \<le> maxLength"
    using len by (cases "int (length ?m) > maxLength") (simp_all add: sanitizeInput_mask)
  have clean: "\<not> occursCI word (sanitizeInput input maxLength)" if w: "word \<in> set blockedWords" for word
  proof (cases "int (length ?m) > maxLength")
    case True
    show ?thesis
    proof
      assume "occursCI word (sanitizeInput input maxLength)"
      with True have "occursCI word (take (nat (maxLength - 3)) ?m @ ''...'')"
        by (simp add: sanitizeInput_mask)
      with blocked_word_chars [OF w] have "occursCI word ?m"
        by (blast intro: occursCI_truncate)
      with maskBlockedWords_clean [OF w] show False by simp
    qed
  next
    case False
    with maskBlockedWords_clean [OF w] show ?thesis by (simp add: sanitizeInput_mask)
  qed
  show ?thesis
    using bound clean len maskBlockedWords_clean trim_ends [of input]
    by (simp add: sanitizeInput_mask)
qed

lemma matchesAt_hd:
  "word \<noteq> [] \<Longrightarrow> matchesAt word (c # cs) \<Longrightarrow> toUpperChar c = toUpperChar (hd word)"
  by (cases word) (auto simp: matchesAt_def)

lemmas char_eval =
  toUpperChar_def toLowerChar_def upperCaseOf_def charCode_def char_of_def bit_Suc_0_iff
  isWhiteSpace_def

lemma replaceAllCI_id:
  "\<forall>c \<in> set s. toUpperChar c \<noteq> toUpperChar (hd word) \<Longrightarrow> replaceAllCI word repl s = s"
proof (induction s)
  case Nil
  then show ?case by simp
next
  case (Cons c cs)
  then have "\<not> (word \<noteq> [] \<and> matchesAt word (c # cs))"
    by (auto dest: matchesAt_hd)
  then have "replaceAllCI word repl (c # cs) = c # replaceAllCI word repl cs"
    by auto
  with Cons show ?case by simp
qed

lemma maskBlockedWords_id:
  assumes "\<forall>c \<in> set s. toUpperChar c \<notin> {CHR ''T'', CHR ''D'', CHR ''F''}"
  shows "maskBlockedWords s = s"
proof -
  have u: "toUpperChar (CHR ''t'') = CHR ''T''" "toUpperChar (CHR ''d'') = CHR ''D''"
    "toUpperChar (CHR ''f'') = CHR ''F''"
    by (simp_all add: char_eval)
  have "replaceAllCI ''test'' ''***'' s = s"
    using assms by (intro replaceAllCI_id) (simp add: u)
  moreover have "replaceAllCI ''dummy'' ''***'' s = s"
    using assms by (intro replaceAllCI_id) (simp add: u)
  moreover have "replaceAllCI ''fake'' ''***'' s = s"
    using assms by (intro replaceAllCI_id) (simp add: u)
  ultimately show ?thesis
    by (simp add: maskBlockedWords_def blockedWords_def)
qed

text \<open>Sixty letters \<open>a\<close> and \<open>maxLength\<close> 10: seven letters and the ellipsis.\<close>

theorem sanitizeInput_bounded_witness:
  "sanitizeInput (replicate 60 (CHR ''a'')) 10 = ''aaaaaaa...''
   \<and> int (length (sanitizeInput (replicate 60 (CHR ''a'')) 10)) \<le> 10"
proof -
  let ?s = "replicate 60 (CHR ''a'')"
  have a: "3 \<le> (10::int)" by simp
  have t: "trim ?s = ?s"
    by (simp add: trim_def char_eval)
  have m: "maskBlockedWords ?s = ?s"
    by (rule maskBlockedWords_id) (simp add: char_eval)
  have seven: "replicate 7 (CHR ''a'') = ''aaaaaaa''"
    by (simp add: numeral_eq_Suc)
  have "sanitizeInput ?s 10 = ''aaaaaaa...''"
    by (simp add: sanitizeInput_mask t m seven)
  with sanitizeInput_bounded [OF a, of ?s] show ?thesis by blast
qed

text \<open>Below 3 the bound fails: \<open>substring(0, maxLength - 3)\<close> is empty and the
  ellipsis alone has three characters.\<close>

theorem sanitizeInput_short_maxLength_counterexample:
  "sanitizeInput ''abc'' 2 = ''...'' \<and> \<not> int (length (sanitizeInput ''abc'' 2)) \<le> 2"
proof -
  have t: "trim ''abc'' = ''abc''"
    by (simp add: trim_def char_eval)
  have m: "maskBlockedWords ''abc'' = ''abc''"
    by (rule maskBlockedWords_id) (simp add: char_eval)
  have "sanitizeInput ''abc'' 2 = ''...''"
    unfolding sanitizeInput_mask t m by simp
  then show ?thesis by simp
qed

section \<open>Parsing a JSON item\<close>

lemma clampStat_range: "clampStat v = Inr x \<Longrightarrow> 1 \<le> x \<and> x \<le> 99"
  by (auto simp: clampStat_def bindE_def split: sum.splits option.splits)

lemma statFromJSON_range: "statFromJSON jsonItem key = Inr x \<Longrightarrow> 1 \<le> x \<and> x \<le> 99"
  by (auto simp: statFromJSON_def bindE_def dest: clampStat_range split: sum.splits if_splits)

lemma calculateOverallRating_range:
  assumes "1 \<le> v1 \<and> v1 \<le> 99" "1 \<le> v2 \<and> v2 \<le> 99" "1 \<le> v3 \<and> v3 \<le> 99"
    "1 \<le> v4 \<and> v4 \<le> 99" "1 \<le> v5 \<and> v5 \<le> 99" "1 \<le> v6 \<and> v6 \<le> 99"
  shows "1 \<le> calculateOverallRating \<lparr> technical = v1, leadership = v2, creativity = v3,
            reliability = v4, collaboration = v5, adaptability = v6 \<rparr>
       \<and> calculateOverallRating \<lparr> technical = v1, leadership = v2, creativity = v3,
            reliability = v4, collaboration = v5, adaptability = v6 \<rparr> \<le> 99"
proof -
  define S where "S = v1 + v2 + v3 + v4 + v5 + v6"
  have "6 \<le> S" "S \<le> 594" using assms unfolding S_def by linarith+
  then have "1 \<le> (S + 3) div 6 \<and> (S + 3) div 6 \<le> 99" by presburger
  then show ?thesis unfolding calculateOverallRating_div S_def by simp
qed

lemma bindE_Inr_iff: "bindE m f = Inr y \<longleftrightarrow> (\<exists>x. m = Inr x \<and> f x = Inr y)"
  by (cases m) (simp_all add: bindE_def)

lemma parsePlayerDataFromJSON_InrD:
  assumes "parsePlayerDataFromJSON jsonItem index now = Inr p"
  shows "\<exists>v1 v2 v3 v4 v5 v6.
      statFromJSON jsonItem ''technical'' = Inr v1 \<and> statFromJSON jsonItem ''leadership'' = Inr v2
    \<and> statFromJSON jsonItem ''creativity'' = Inr v3 \<and> statFromJSON jsonItem ''reliability'' = Inr v4
    \<and> statFromJSON jsonItem ''collaboration'' = Inr v5 \<and> statFromJSON jsonItem ''adaptability'' = Inr v6
    \<and> stats p = \<lparr> technical = v1, leadership = v2, creativity = v3,
                    reliability = v4, collaboration = v5, adaptability = v6 \<rparr>
    \<and> manualRating p = Some (truthy (property jsonItem ''rating''))
    \<and> (if truthy (property jsonItem ''rating'')
        then clampStat (property jsonItem ''rating'')
        else Inr (calculateOverallRating (stats p))) = Inr (rating p)"
proof -
  from assms [unfolded parsePlayerDataFromJSON_def Let_def bindE_Inr_iff]
  obtain v1 v2 v3 v4 v5 v6 nm pos natl rt created where
    s: "statFromJSON jsonItem ''technical'' = Inr v1" "statFromJSON jsonItem ''leadership'' = Inr v2"
       "statFromJSON jsonItem ''creativity'' = Inr v3" "statFromJSON jsonItem ''reliability'' = Inr v4"
       "statFromJSON jsonItem ''collaboration'' = Inr v5" "statFromJSON jsonItem ''adaptability'' = Inr v6"
    and r: "(if truthy (property jsonItem ''rating'')
            then clampStat (property jsonItem ''rating'')
            else Inr (calculateOverallRating \<lparr> technical = v1, leadership = v2, creativity = v3,
                           reliability = v4, collaboration = v5, adaptability = v6 \<rparr>)) = Inr rt"
    and p: "Inr \<lparr> id' = orElse (property jsonItem ''id'')
                     (JStr (''batch_json_'' @ showNat index @ ''_'' @ showInt now)),
             name = nm,
             position = pos,
             nationality = natl,
             rating = rt,
             manualRating = Some (truthy (property jsonItem ''rating'')),
             stats = \<lparr> technical = v1, leadership = v2, creativity = v3,
                           reliability = v4, collaboration = v5, adaptability = v6 \<rparr>,
             profilePhoto = orElse (property jsonItem ''profilePhoto'') (property jsonItem ''photo''),
             backgroundTheme = validateTheme (orElse (property jsonItem ''theme'')
                                 (property jsonItem ''backgroundTheme'')),
             customLogo = orElse (property jsonItem ''customLogo'') (property jsonItem ''logo''),
             createdAt = Some created,
             updatedAt = Some (NewDate (JNum now)) \<rparr> = (Inr p :: jserror + PlayerData)"
    by blast
  note pe = p [unfolded sum.inject, symmetric]
  have f1: "stats p = \<lparr> technical = v1, leadership = v2, creativity = v3,
                           reliability = v4, collaboration = v5, adaptability = v6 \<rparr>"
    unfolding pe by simp
  have f2: "rating p = rt" unfolding pe by simp
  have f3: "manualRating p = Some (truthy (property jsonItem ''rating''))" unfolding pe by simp
  note r' = r [folded f1 f2]
  from s f1 f3 r' show ?thesis by blast
qed

lemma bindE_Inl_iff: "bindE m f = Inl e \<longleftrightarrow> m = Inl e \<or> (\<exists>x. m = Inr x \<and> f x = Inl e)"
  by (cases m) (simp_all add: bindE_def)

lemma parsePlayerDataFromJSON_Inr:
  assumes "parsePlayerDataFromJSON jsonItem index now = Inr p"
  shows "manualRating p = Some (truthy (property jsonItem ''rating''))"
    and "\<not> truthy (property jsonItem ''rating'') \<Longrightarrow> rating p = calculateOverallRating (stats p)"
    and "1 \<le> rating p \<and> rating p \<le> 99"
    and "\<forall>v \<in> set (Object_values (stats p)). 1 \<le> v \<and> v \<le> 99"
proof -
  from parsePlayerDataFromJSON_InrD [OF assms]
  obtain v1 v2 v3 v4 v5 v6 where
    s: "statFromJSON jsonItem ''technical'' = Inr v1" "statFromJSON jsonItem ''leadership'' = Inr v2"
       "statFromJSON jsonItem ''creativity'' = Inr v3" "statFromJSON jsonItem ''reliability'' = Inr v4"
       "statFromJSON jsonItem ''collaboration'' = Inr v5" "statFromJSON jsonItem ''adaptability'' = Inr v6"
    and st: "stats p = \<lparr> technical = v1, leadership = v2, creativity = v3,
                    reliability = v4, collaboration = v5, adaptability = v6 \<rparr>"
    and m: "manualRating p = Some (truthy (property jsonItem ''rating''))"
    and r: "(if truthy (property jsonItem ''rating'')
        then clampStat (property jsonItem ''rating'')
        else Inr (calculateOverallRating (stats p))) = Inr (rating p)"
    by blast
  note rg = s [THEN statFromJSON_range]
  show "manualRating p = Some (truthy (property jsonItem ''rating''))" by (rule m)
  show "\<not> truthy (property jsonItem ''rating'') \<Longrightarrow> rating p = calculateOverallRating (stats p)"
    using r by simp
  show "1 \<le> rating p \<and> rating p \<le> 99"
  proof (cases "truthy (property jsonItem ''rating'')")
    case True
    with r show ?thesis by (simp add: clampStat_range)
  next
    case False
    with r have "rating p = calculateOverallRating (stats p)" by simp
    with calculateOverallRating_range [OF rg] show ?thesis by (simp only: st)
  qed
  show "\<forall>v \<in> set (Object_values (stats p)). 1 \<le> v \<and> v \<le> 99"
    using rg by (simp add: st Object_values_def)
qed

text \<open>
  C10. A JSON item whose \<open>rating\<close> is falsy (missing, \<open>null\<close>, \<open>false\<close>, 0 or the empty
  string) and that parses into a card gives a card with \<open>manualRating\<close> false whose
  rating is the rounded mean of its stats; the rating is not 0.
\<close>

theorem json_falsy_rating_is_aggregate:
  assumes "\<not> truthy (property jsonItem ''rating'')"
    and "parsePlayerDataFromJSON jsonItem index now = Inr p"
  shows "manualRating p = Some False
       \<and> rating p = calculateOverallRating (stats p)
       \<and> rating p \<noteq> 0"
  using parsePlayerDataFromJSON_Inr [OF assms(2)] assms(1) by auto

lemma bob_stat:
  "statFromJSON (bobItem r) ''technical'' = Inr 99"
  "statFromJSON (bobItem r) ''leadership'' = Inr 75"
  "statFromJSON (bobItem r) ''creativity'' = Inr 75"
  "statFromJSON (bobItem r) ''reliability'' = Inr 75"
  "statFromJSON (bobItem r) ''collaboration'' = Inr 75"
  "statFromJSON (bobItem r) ''adaptability'' = Inr 75"
  by (simp_all add: statFromJSON_def bobItem_def getProp_def nullish_def bindE_def optChain_def
        orElse_def clampStat_def parseInt10_def showInt_def digitChar_def digitsValue_def
        isDigit_def char_eval)

lemmas num_eval = parseInt10_def showInt_def digitChar_def digitsValue_def isDigit_def

lemma bob_fields:
  "sanitizeInputAny (orElse (property (bobItem r) ''name'') (JStr [])) 30 = Inr ''Bob''"
  "validatePosition (property (bobItem r) ''position'') = Inr ''QA''"
  "nationalityFromJSON (property (bobItem r) ''nationality'') = Inr ''FR''"
  "property (bobItem r) ''rating'' = r"
  "newDate (orElse (property (bobItem r) ''createdAt'') (JNum now)) = Inr (NewDate (JNum now))"
proof -
  have t: "trim ''Bob'' = ''Bob''" by (simp add: trim_def char_eval)
  have m: "maskBlockedWords ''Bob'' = ''Bob''"
    by (rule maskBlockedWords_id) (simp add: char_eval)
  show "sanitizeInputAny (orElse (property (bobItem r) ''name'') (JStr [])) 30 = Inr ''Bob''"
    by (simp add: bobItem_def orElse_def sanitizeInputAny_def sanitizeInput_mask t m)
  show "validatePosition (property (bobItem r) ''position'') = Inr ''QA''"
    by (simp add: bobItem_def validatePosition_def toUpperCase_def validPositions_def char_eval)
  show "nationalityFromJSON (property (bobItem r) ''nationality'') = Inr ''FR''"
    by (simp add: bobItem_def nationalityFromJSON_def orElse_def toUpperCase_def substring0_def
          char_eval)
  show "property (bobItem r) ''rating'' = r"
    by (simp add: bobItem_def)
  show "newDate (orElse (property (bobItem r) ''createdAt'') (JNum now)) = Inr (NewDate (JNum now))"
    by (simp add: bobItem_def orElse_def newDate_def bindE_def)
qed

lemma bob_parse:
  assumes "\<not> truthy r"
  shows "\<exists>p. parsePlayerDataFromJSON (bobItem r) 2 1000 = Inr p"
  unfolding parsePlayerDataFromJSON_def bob_stat bob_fields Let_def bindE_def
  using assms by simp

text \<open>The item with rating 0 and the item with rating \<open>''\<close> parse, and both cards
  have the computed rating 79, the rounded mean of 99 and five times 75.\<close>

theorem json_falsy_rating_is_aggregate_witness:
  "\<not> truthy (property (bobItem (JNum 0)) ''rating'')
   \<and> \<not> truthy (property (bobItem (JStr [])) ''rating'')
   \<and> (\<exists>p. parsePlayerDataFromJSON (bobItem (JNum 0)) 2 1000 = Inr p
          \<and> manualRating p = Some False \<and> rating p = 79)
   \<and> (\<exists>p. parsePlayerDataFromJSON (bobItem (JStr [])) 2 1000 = Inr p
          \<and> manualRating p = Some False \<and> rating p = 79)"
proof -
  have agg: "rating p = 79"
    if "parsePlayerDataFromJSON (bobItem r) 2 1000 = Inr p" "rating p = calculateOverallRating (stats p)"
    for r p
  proof -
    from parsePlayerDataFromJSON_InrD [OF that(1)] have
      "stats p = \<lparr> technical = 99, leadership = 75, creativity = 75,
                    reliability = 75, collaboration = 75, adaptability = 75 \<rparr>"
      unfolding bob_stat by auto
    with that(2) show ?thesis by (simp add: calculateOverallRating_div)
  qed
  have one: "\<exists>p. parsePlayerDataFromJSON (bobItem r) 2 1000 = Inr p
          \<and> manualRating p = Some False \<and> rating p = 79" if f: "\<not> truthy r" for r
  proof -
    from bob_parse [OF f] obtain p where p: "parsePlayerDataFromJSON (bobItem r) 2 1000 = Inr p" ..
    from f have f': "\<not> truthy (property (bobItem r) ''rating'')" by (simp add: bob_fields)
    from json_falsy_rating_is_aggregate [OF f' p] agg [OF p] p show ?thesis by blast
  qed
  show ?thesis using one [of "JNum 0"] one [of "JStr []"] by (simp add: bob_fields)
qed


section \<open>The import loops\<close>

lemma appendResult_empty [simp]:
  "appendResult r emptyResult = r" "appendResult emptyResult r = r"
  by (simp_all add: appendResult_def emptyResult_def)

lemma appendResult_assoc:
  "appendResult (appendResult a b) c = appendResult a (appendResult b c)"
  by (simp add: appendResult_def)

lemma mergeResults_simps [simp]:
  "mergeResults [] = emptyResult"
  "mergeResults (r # rs) = appendResult r (mergeResults rs)"
  by (simp_all add: mergeResults_def appendResult_def emptyResult_def)

lemma acceptOrReject_append:
  "acceptOrReject r raw p result = appendResult result (acceptOrReject r raw p emptyResult)"
  by (simp add: acceptOrReject_def appendResult_def emptyResult_def Let_def)

lemma processCSVRow_append:
  "processCSVRow headers now i line result = appendResult result (csvRowAlone headers now i line)"
proof (cases "parsePlayerDataFromCSV headers (parseCSVLine line) i now")
  case (Inl e)
  then show ?thesis
    by (simp add: processCSVRow_def csvRowAlone_def Let_def appendResult_def emptyResult_def)
next
  case (Inr p)
  then show ?thesis
    using acceptOrReject_append [of i "Cells (parseCSVLine line)" p result]
    by (simp add: processCSVRow_def csvRowAlone_def Let_def)
qed

lemma processJSONItem_append:
  "processJSONItem now i jsonItem result = appendResult result (jsonItemAlone now i jsonItem)"
proof (cases "parsePlayerDataFromJSON jsonItem i now")
  case (Inl e)
  then show ?thesis
    by (simp add: processJSONItem_def jsonItemAlone_def appendResult_def emptyResult_def)
next
  case (Inr p)
  then show ?thesis
    using acceptOrReject_append [of "i + 1" "Item jsonItem" p result]
    by (simp add: processJSONItem_def jsonItemAlone_def)
qed

lemma csvRows_result:
  "snd (csvRows headers clock n i lines (st, result)) =
     appendResult result
       (mergeResults (map (\<lambda>(k, line). csvRowAlone headers (clock k) k line) (enumerate i lines)))"
proof (induction lines arbitrary: i st result)
  case Nil
  then show ?case by simp
next
  case (Cons line rest)
  show ?case
    by (simp add: Cons.IH processCSVRow_append [of headers "clock i" i line result]
          appendResult_assoc)
qed

lemma jsonItems_result:
  "snd (jsonItems clock n i items (st, result)) =
     appendResult result
       (mergeResults (map (\<lambda>(k, jsonItem). jsonItemAlone (clock k) k jsonItem) (enumerate i items)))"
proof (induction items arbitrary: i st result)
  case Nil
  then show ?case by simp
next
  case (Cons jsonItem rest)
  show ?case
    by (simp add: Cons.IH processJSONItem_append [of "clock i" i jsonItem result]
          appendResult_assoc)
qed

lemma csvRows_state:
  "batchCards (fst (csvRows headers clock n i lines (st, result))) = batchCards st
   \<and> photoLibrary (fst (csvRows headers clock n i lines (st, result))) = photoLibrary st
   \<and> batchProgress (fst (csvRows headers clock n i lines (st, result))) =
       batchProgress st @ map (\<lambda>(k, line). \<lparr> current = k, total = n, status = processing,
            message = ''Processing row '' @ showNat k @ ''...'' \<rparr>) (enumerate i lines)"
proof (induction lines arbitrary: i st result)
  case Nil
  then show ?case by simp
next
  case (Cons line rest)
  show ?case by (simp add: Cons.IH updateProgress_def)
qed

lemma jsonItems_state:
  "batchCards (fst (jsonItems clock n i items (st, result))) = batchCards st
   \<and> photoLibrary (fst (jsonItems clock n i items (st, result))) = photoLibrary st
   \<and> batchProgress (fst (jsonItems clock n i items (st, result))) =
       batchProgress st @ map (\<lambda>(k, jsonItem). \<lparr> current = k, total = n, status = processing,
            message = ''Processing item '' @ showNat (k + 1) @ ''...'' \<rparr>) (enumerate i items)"
proof (induction items arbitrary: i st result)
  case Nil
  then show ?case by simp
next
  case (Cons jsonItem rest)
  show ?case by (simp add: Cons.IH updateProgress_def)
qed

lemma finishImport_simps:
  "snd (finishImport (st, result)) = Inr result"
  "batchCards (fst (finishImport (st, result))) = success result"
  "photoLibrary (fst (finishImport (st, result))) = photoLibrary st"
  "batchProgress (fst (finishImport (st, result))) = batchProgress st @
     [\<lparr> current = length (success result), total = length (success result), status = completed,
        message = ''Imported '' @ showNat (length (success result)) @ '' cards successfully'' \<rparr>]"
  by (simp_all add: finishImport_def updateProgress_def)

lemma failImport_simps:
  "snd (failImport e st) = Inl e"
  "batchCards (fst (failImport e st)) = batchCards st"
  "photoLibrary (fst (failImport e st)) = photoLibrary st"
  "batchProgress (fst (failImport e st)) = batchProgress st @
     [\<lparr> current = 0, total = 0, status = error, message = errorMessage e \<rparr>]"
  by (simp_all add: failImport_def updateProgress_def)

lemma parseCSVLine_loop_nonempty: "parseCSVLine_loop s result cur q \<noteq> []"
  by (induction s result cur q rule: parseCSVLine_loop.induct) simp_all

lemma parseCSVLine_nonempty: "parseCSVLine line \<noteq> []"
  by (simp add: parseCSVLine_def parseCSVLine_loop_nonempty)

lemma acceptOrReject_valid:
  "isValid (validatePlayerData p) \<Longrightarrow>
     success (acceptOrReject r raw p emptyResult) = [p]
     \<and> errors (acceptOrReject r raw p emptyResult) = []
     \<and> (\<forall>w \<in> set (warnings (acceptOrReject r raw p emptyResult)). row w = r \<and> data w = Player p)"
  by (simp add: acceptOrReject_def emptyResult_def Let_def)

lemma acceptOrReject_invalid:
  "\<not> isValid (validatePlayerData p) \<Longrightarrow>
     acceptOrReject r raw p emptyResult =
       \<lparr> success = [],
         errors = [\<lparr> row = r, rowMessage = join '', '' (validationErrors (validatePlayerData p)),
                    data = raw \<rparr>],
         warnings = [] \<rparr>"
  by (simp add: acceptOrReject_def emptyResult_def Let_def)

lemma csvRowAlone_cases:
  "(case parsePlayerDataFromCSV headers (parseCSVLine line) i now of
      Inl e \<Rightarrow>
        csvRowAlone headers now i line =
          \<lparr> success = [],
            errors = [\<lparr> row = i, rowMessage = errorMessage e, data = Line line \<rparr>],
            warnings = [] \<rparr>
    | Inr p \<Rightarrow>
        if isValid (validatePlayerData p)
        then success (csvRowAlone headers now i line) = [p]
             \<and> errors (csvRowAlone headers now i line) = []
             \<and> (\<forall>w \<in> set (warnings (csvRowAlone headers now i line)). row w = i \<and> data w = Player p)
        else csvRowAlone headers now i line =
               \<lparr> success = [],
                 errors = [\<lparr> row = i,
                            rowMessage = join '', '' (validationErrors (validatePlayerData p)),
                            data = Cells (parseCSVLine line) \<rparr>],
                 warnings = [] \<rparr>)"
proof (cases "parsePlayerDataFromCSV headers (parseCSVLine line) i now")
  case (Inl e)
  then show ?thesis
    by (simp add: csvRowAlone_def processCSVRow_def parseCSVLine_nonempty emptyResult_def)
next
  case (Inr p)
  then have r: "csvRowAlone headers now i line = acceptOrReject i (Cells (parseCSVLine line)) p emptyResult"
    by (simp add: csvRowAlone_def processCSVRow_def parseCSVLine_nonempty)
  show ?thesis
  proof (cases "isValid (validatePlayerData p)")
    case True
    from acceptOrReject_valid [OF True, of i "Cells (parseCSVLine line)"] True
    show ?thesis unfolding Inr r sum.case by (simp only: if_True) blast
  next
    case False
    from acceptOrReject_invalid [OF False, of i "Cells (parseCSVLine line)"] False
    show ?thesis unfolding Inr r sum.case by (simp only: if_False)
  qed
qed

lemma jsonItemAlone_cases:
  "(case parsePlayerDataFromJSON jsonItem i now of
      Inl e \<Rightarrow>
        jsonItemAlone now i jsonItem =
          \<lparr> success = [],
            errors = [\<lparr> row = i + 1, rowMessage = errorMessage e, data = Item jsonItem \<rparr>],
            warnings = [] \<rparr>
    | Inr p \<Rightarrow>
        if isValid (validatePlayerData p)
        then success (jsonItemAlone now i jsonItem) = [p]
             \<and> errors (jsonItemAlone now i jsonItem) = []
             \<and> (\<forall>w \<in> set (warnings (jsonItemAlone now i jsonItem)). row w = i + 1 \<and> data w = Player p)
        else jsonItemAlone now i jsonItem =
               \<lparr> success = [],
                 errors = [\<lparr> row = i + 1,
                            rowMessage = join '', '' (validationErrors (validatePlayerData p)),
                            data = Item jsonItem \<rparr>],
                 warnings = [] \<rparr>)"
proof (cases "parsePlayerDataFromJSON jsonItem i now")
  case (Inl e)
  then show ?thesis
    by (simp add: jsonItemAlone_def processJSONItem_def emptyResult_def)
next
  case (Inr p)
  then have r: "jsonItemAlone now i jsonItem = acceptOrReject (i + 1) (Item jsonItem) p emptyResult"
    by (simp add: jsonItemAlone_def processJSONItem_def)
  show ?thesis
  proof (cases "isValid (validatePlayerData p)")
    case True
    from acceptOrReject_valid [OF True, of "i + 1" "Item jsonItem"] True
    show ?thesis unfolding Inr r sum.case by (simp only: if_True) blast
  next
    case False
    from acceptOrReject_invalid [OF False, of "i + 1" "Item jsonItem"] False
    show ?thesis unfolding Inr r sum.case by (simp only: if_False)
  qed
qed

lemma importFromCSV_failure:
  assumes "csvPipelineFailure fileText"
  shows "\<exists>e. importFromCSV clock fileText st
           = failImport e (updateProgress 0 0 processing ''Reading CSV file...'' st)"
proof (cases fileText)
  case (Inl e)
  then show ?thesis by (simp add: importFromCSV_def Let_def) blast
next
  case (Inr csvText)
  with assms have "csvLines csvText = [] \<or> filter (\<lambda>field. field \<notin> set (csvHeaders (csvLines csvText))) requiredFields \<noteq> []"
    by (auto simp: csvPipelineFailure_def filter_empty_conv)
  with Inr show ?thesis by (auto simp: importFromCSV_def Let_def)
qed

lemma importFromCSV_success:
  assumes "fileText = Inr text" and "\<not> csvPipelineFailure fileText"
  shows "importFromCSV clock fileText st =
           finishImport (csvRows (csvHeaders (csvLines text)) clock (length (csvLines text) - 1) 1
              (tl (csvLines text))
              (updateProgress 0 0 processing ''Reading CSV file...'' st, emptyResult))"
proof -
  from assms have "csvLines text \<noteq> []"
    and "filter (\<lambda>field. field \<notin> set (csvHeaders (csvLines text))) requiredFields = []"
    by (auto simp: csvPipelineFailure_def filter_empty_conv)
  with assms(1) show ?thesis by (simp add: importFromCSV_def Let_def)
qed

lemma playersArrayOf_recognized:
  "(\<exists>arr. playersArrayOf jsonData = Inr arr) \<longleftrightarrow> recognizedShape jsonData"
  by (cases jsonData; cases "property jsonData ''cards''"; cases "property jsonData ''players''")
     (simp_all add: playersArrayOf_def recognizedShape_def isArray_def getProp_def nullish_def
        bindE_def)

lemma importFromJSON_failure:
  assumes "jsonPipelineFailure parsed"
  shows "\<exists>e. importFromJSON clock parsed st
           = failImport e (updateProgress 0 0 processing ''Reading JSON file...'' st)"
proof (cases "bindE parsed playersArrayOf")
  case (Inl e)
  then show ?thesis by (simp add: importFromJSON_def Let_def) blast
next
  case (Inr arr)
  then obtain jsonData where "parsed = Inr jsonData" "playersArrayOf jsonData = Inr arr"
    by (auto simp: bindE_Inr_iff)
  with assms playersArrayOf_recognized [of jsonData] show ?thesis
    by (auto simp: jsonPipelineFailure_def)
qed

lemma importFromJSON_success:
  assumes "parsed = Inr jsonData" and "playersArrayOf jsonData = Inr playersArray"
  shows "importFromJSON clock parsed st =
           finishImport (jsonItems clock (length playersArray) 0 playersArray
              (updateProgress 0 0 processing ''Reading JSON file...'' st, emptyResult))"
  using assms by (simp add: importFromJSON_def Let_def bindE_def)

lemma csvRowAlone_count:
  "length (success (csvRowAlone headers now i line)) + length (errors (csvRowAlone headers now i line)) = 1"
  using csvRowAlone_cases [where headers=headers and line=line and i=i and now=now]
  by (cases "parsePlayerDataFromCSV headers (parseCSVLine line) i now")
     (auto split: if_splits)

lemma jsonItemAlone_count:
  "length (success (jsonItemAlone now i jsonItem)) + length (errors (jsonItemAlone now i jsonItem)) = 1"
  using jsonItemAlone_cases [where jsonItem=jsonItem and i=i and now=now]
  by (cases "parsePlayerDataFromJSON jsonItem i now")
     (auto split: if_splits)

lemma mergeResults_count:
  "\<forall>r \<in> set rs. length (success r) + length (errors r) = 1 \<Longrightarrow>
     length (success (mergeResults rs)) + length (errors (mergeResults rs)) = length rs"
  by (induction rs) (simp_all add: appendResult_def emptyResult_def)

lemma csvRowAlone_success:
  "p \<in> set (success (csvRowAlone headers now i line)) \<Longrightarrow>
     parsePlayerDataFromCSV headers (parseCSVLine line) i now = Inr p"
  using csvRowAlone_cases [where headers=headers and line=line and i=i and now=now]
  by (cases "parsePlayerDataFromCSV headers (parseCSVLine line) i now")
     (auto split: if_splits)

lemma jsonItemAlone_success:
  "p \<in> set (success (jsonItemAlone now i jsonItem)) \<Longrightarrow>
     parsePlayerDataFromJSON jsonItem i now = Inr p"
  using jsonItemAlone_cases [where jsonItem=jsonItem and i=i and now=now]
  by (cases "parsePlayerDataFromJSON jsonItem i now")
     (auto split: if_splits)

lemma success_mergeResults:
  "set (success (mergeResults rs)) = (\<Union>r \<in> set rs. set (success r))"
  by (simp add: mergeResults_def)

lemma importFromCSV_result:
  assumes "fileText = Inr csv" and "\<not> csvPipelineFailure fileText"
  shows "snd (importFromCSV clock fileText st) =
           Inr (mergeResults (map (\<lambda>(i, line). csvRowAlone (csvHeaders (csvLines csv)) (clock i) i line)
                  (enumerate 1 (tl (csvLines csv)))))"
proof -
  let ?p = "csvRows (csvHeaders (csvLines csv)) clock (length (csvLines csv) - 1) 1
              (tl (csvLines csv))
              (updateProgress 0 0 processing ''Reading CSV file...'' st, emptyResult)"
  have "snd (importFromCSV clock fileText st) = Inr (snd ?p)"
    unfolding importFromCSV_success [OF assms]
    using finishImport_simps(1) [of "fst ?p" "snd ?p"] by (simp only: prod.collapse)
  then show ?thesis by (simp only: csvRows_result appendResult_empty)
qed

lemma importFromJSON_result:
  assumes "parsed = Inr jsonData" and "playersArrayOf jsonData = Inr playersArray"
  shows "snd (importFromJSON clock parsed st) =
           Inr (mergeResults (map (\<lambda>(i, jsonItem). jsonItemAlone (clock i) i jsonItem)
                  (enumerate 0 playersArray)))"
proof -
  let ?p = "jsonItems clock (length playersArray) 0 playersArray
              (updateProgress 0 0 processing ''Reading JSON file...'' st, emptyResult)"
  have "snd (importFromJSON clock parsed st) = Inr (snd ?p)"
    unfolding importFromJSON_success [OF assms]
    using finishImport_simps(1) [of "fst ?p" "snd ?p"] by (simp only: prod.collapse)
  then show ?thesis by (simp only: jsonItems_result appendResult_empty)
qed

lemma importFromCSV_Inl_iff:
  "(\<exists>e. snd (importFromCSV clock fileText st) = Inl e) \<longleftrightarrow> csvPipelineFailure fileText"
proof
  assume "\<exists>e. snd (importFromCSV clock fileText st) = Inl e"
  then obtain e where e: "snd (importFromCSV clock fileText st) = Inl e" ..
  show "csvPipelineFailure fileText"
  proof (rule ccontr)
    assume n: "\<not> csvPipelineFailure fileText"
    then obtain csv where "fileText = Inr csv"
      by (cases fileText) (simp_all add: csvPipelineFailure_def)
    from importFromCSV_result [OF this n, of clock st] e show False by simp
  qed
next
  assume "csvPipelineFailure fileText"
  from importFromCSV_failure [OF this, of clock st] show "\<exists>e. snd (importFromCSV clock fileText st) = Inl e"
    by (auto simp: failImport_simps)
qed

lemma importFromJSON_Inl_iff:
  "(\<exists>e. snd (importFromJSON clock parsed st) = Inl e) \<longleftrightarrow> jsonPipelineFailure parsed"
proof
  assume "\<exists>e. snd (importFromJSON clock parsed st) = Inl e"
  then obtain e where e: "snd (importFromJSON clock parsed st) = Inl e" ..
  show "jsonPipelineFailure parsed"
  proof (rule ccontr)
    assume n: "\<not> jsonPipelineFailure parsed"
    then obtain jsonData where j: "parsed = Inr jsonData" and "recognizedShape jsonData"
      by (cases parsed) (simp_all add: jsonPipelineFailure_def)
    then obtain arr where "playersArrayOf jsonData = Inr arr"
      using playersArrayOf_recognized [of jsonData] by blast
    from importFromJSON_result [OF j this, of clock st] e show False by simp
  qed
next
  assume "jsonPipelineFailure parsed"
  from importFromJSON_failure [OF this, of clock st] show "\<exists>e. snd (importFromJSON clock parsed st) = Inl e"
    by (auto simp: failImport_simps)
qed

lemma importFromCSV_aborted:
  assumes "snd (importFromCSV clock fileText st) = Inl e"
  shows "aborted st (fst (importFromCSV clock fileText st)) e"
proof -
  from assms have "csvPipelineFailure fileText" using importFromCSV_Inl_iff by blast
  from importFromCSV_failure [OF this, of clock st] obtain e' where
    f: "importFromCSV clock fileText st = failImport e' (updateProgress 0 0 processing ''Reading CSV file...'' st)" ..
  with assms have "e' = e" by (simp add: failImport_simps)
  with f show ?thesis by (simp add: aborted_def failImport_simps updateProgress_def)
qed

lemma importFromJSON_aborted:
  assumes "snd (importFromJSON clock parsed st) = Inl e"
  shows "aborted st (fst (importFromJSON clock parsed st)) e"
proof -
  from assms have "jsonPipelineFailure parsed" using importFromJSON_Inl_iff by blast
  from importFromJSON_failure [OF this, of clock st] obtain e' where
    f: "importFromJSON clock parsed st = failImport e' (updateProgress 0 0 processing ''Reading JSON file...'' st)" ..
  with assms have "e' = e" by (simp add: failImport_simps)
  with f show ?thesis by (simp add: aborted_def failImport_simps updateProgress_def)
qed

lemma importFromCSV_completed:
  assumes "snd (importFromCSV clock fileText st) = Inr result"
  shows "last (batchProgress (fst (importFromCSV clock fileText st))) =
           \<lparr> current = length (success result), total = length (success result),
             status = completed,
             message = ''Imported '' @ showNat (length (success result)) @ '' cards successfully'' \<rparr>
       \<and> batchCards (fst (importFromCSV clock fileText st)) = success result"
proof -
  from assms have n: "\<not> csvPipelineFailure fileText"
    using importFromCSV_Inl_iff [of clock fileText st] by auto
  then obtain csv where c: "fileText = Inr csv"
    by (cases fileText) (simp_all add: csvPipelineFailure_def)
  let ?p = "csvRows (csvHeaders (csvLines csv)) clock (length (csvLines csv) - 1) 1
              (tl (csvLines csv))
              (updateProgress 0 0 processing ''Reading CSV file...'' st, emptyResult)"
  have i: "importFromCSV clock fileText st = finishImport (fst ?p, snd ?p)"
    unfolding importFromCSV_success [OF c n] by (simp only: prod.collapse)
  with assms have "snd ?p = result" by (simp only: finishImport_simps sum.inject)
  then show ?thesis unfolding i by (simp only: finishImport_simps last_snoc simp_thms)
qed

lemma importFromJSON_completed:
  assumes "snd (importFromJSON clock parsed st) = Inr result"
  shows "last (batchProgress (fst (importFromJSON clock parsed st))) =
           \<lparr> current = length (success result), total = length (success result),
             status = completed,
             message = ''Imported '' @ showNat (length (success result)) @ '' cards successfully'' \<rparr>
       \<and> batchCards (fst (importFromJSON clock parsed st)) = success result"
proof -
  from assms have n: "\<not> jsonPipelineFailure parsed"
    using importFromJSON_Inl_iff [of clock parsed st] by auto
  then obtain jsonData where j: "parsed = Inr jsonData" and "recognizedShape jsonData"
    by (cases parsed) (simp_all add: jsonPipelineFailure_def)
  then obtain arr where a: "playersArrayOf jsonData = Inr arr"
    using playersArrayOf_recognized [of jsonData] by blast
  let ?p = "jsonItems clock (length arr) 0 arr
              (updateProgress 0 0 processing ''Reading JSON file...'' st, emptyResult)"
  have i: "importFromJSON clock parsed st = finishImport (fst ?p, snd ?p)"
    unfolding importFromJSON_success [OF j a] by (simp only: prod.collapse)
  with assms have "snd ?p = result" by (simp only: finishImport_simps sum.inject)
  then show ?thesis unfolding i by (simp only: finishImport_simps last_snoc simp_thms)
qed


section \<open>Sample files\<close>

lemma sample_lines:
  "csvLines sampleCSV = [''name,position,nationality'', ''Ann,DEV,FR'', '',DEV,FR'', ''Bob,QA,GB'']"
  by (simp add: csvLines_def sampleCSV_def trim_def char_eval)

lemma sample_headers: "csvHeaders (csvLines sampleCSV) = sampleHeaders"
  by (simp add: sample_lines csvHeaders_def sampleHeaders_def toLowerCase_def trim_def char_eval)

lemma sample_cells:
  "parseCSVLine ''Ann,DEV,FR'' = [''Ann'', ''DEV'', ''FR'']"
  "parseCSVLine '',DEV,FR'' = ['''', ''DEV'', ''FR'']"
  "parseCSVLine ''Bob,QA,GB'' = [''Bob'', ''QA'', ''GB'']"
  by (simp_all add: parseCSVLine_def trim_def char_eval)

lemma sample_getValue:
  "getValue sampleHeaders [a, b, c] ''name'' = trim a"
  "getValue sampleHeaders [a, b, c] ''position'' = trim b"
  "getValue sampleHeaders [a, b, c] ''nationality'' = trim c"
  "getValue sampleHeaders [a, b, c] ''rating'' = []"
  "getValue sampleHeaders [a, b, c] ''theme'' = []"
  "getValue sampleHeaders [a, b, c] ''technical'' = []"
  "getValue sampleHeaders [a, b, c] ''leadership'' = []"
  "getValue sampleHeaders [a, b, c] ''creativity'' = []"
  "getValue sampleHeaders [a, b, c] ''reliability'' = []"
  "getValue sampleHeaders [a, b, c] ''collaboration'' = []"
  "getValue sampleHeaders [a, b, c] ''adaptability'' = []"
  by (simp_all add: getValue_def sampleHeaders_def)

lemma parseInt10_empty: "parseInt10 [] = None"
  by (simp add: parseInt10_def)

lemma sample_numeric:
  "getValue sampleHeaders [a, b, c] field = [] \<Longrightarrow>
     getNumericValue sampleHeaders [a, b, c] field d = d"
  by (simp add: getNumericValue_def parseInt10_empty)

lemma sample_parse:
  assumes "validatePosition (JStr (trim b)) = Inr pos"
  shows "parsePlayerDataFromCSV sampleHeaders [a, b, c] i now =
     Inr \<lparr> id' = JStr (''batch_'' @ showNat i @ ''_'' @ showInt now),
           name = sanitizeInput (trim a) 30,
           position = pos,
           nationality = substring0 (toUpperCase (trim c)) 3,
           rating = 75,
           manualRating = Some False,
           stats = \<lparr> technical = 75, leadership = 75, creativity = 75,
                     reliability = 75, collaboration = 75, adaptability = 75 \<rparr>,
           profilePhoto = JUndefined,
           backgroundTheme = ''gold-classic'',
           customLogo = JUndefined,
           createdAt = Some (NewDate (JNum now)),
           updatedAt = Some (NewDate (JNum now)) \<rparr>"
proof -
  have n: "getNumericValue sampleHeaders [a, b, c] field d = d"
    if "getValue sampleHeaders [a, b, c] field = []" for field d
    using that by (rule sample_numeric)
  have r: "calculateOverallRating \<lparr> technical = 75, leadership = 75, creativity = 75,
                     reliability = 75, collaboration = 75, adaptability = 75 \<rparr> = 75"
    by (simp add: calculateOverallRating_div)
  have t: "validateTheme (JStr []) = ''gold-classic''"
    by (simp add: validateTheme_def validThemes_def)
  show ?thesis
    unfolding parsePlayerDataFromCSV_def Let_def sample_getValue n [OF sample_getValue(4)]
      n [OF sample_getValue(6)] n [OF sample_getValue(7)] n [OF sample_getValue(8)]
      n [OF sample_getValue(9)] n [OF sample_getValue(10)] n [OF sample_getValue(11)]
      assms r t bindE_def
    by simp
qed

lemma sanitize_short:
  "sanitizeInput (trim ''Ann'') 30 = ''Ann''"
  "sanitizeInput (trim ''Bob'') 30 = ''Bob''"
  "sanitizeInput (trim []) 30 = []"
proof -
  have t: "trim ''Ann'' = ''Ann''" "trim ''Bob'' = ''Bob''" "trim [] = []"
    by (simp_all add: trim_def char_eval)
  have m: "maskBlockedWords ''Ann'' = ''Ann''" "maskBlockedWords ''Bob'' = ''Bob''"
    "maskBlockedWords [] = []"
    by (rule maskBlockedWords_id, simp add: char_eval)+
  show "sanitizeInput (trim ''Ann'') 30 = ''Ann''" "sanitizeInput (trim ''Bob'') 30 = ''Bob''"
    "sanitizeInput (trim []) 30 = []"
    by (simp_all add: sanitizeInput_mask t m)
qed

lemma sample_positions:
  "validatePosition (JStr (trim ''DEV'')) = Inr ''DEV''"
  "validatePosition (JStr (trim ''QA'')) = Inr ''QA''"
  by (simp_all add: validatePosition_def validPositions_def toUpperCase_def trim_def char_eval)

lemma sample_nationalities:
  "substring0 (toUpperCase (trim ''FR'')) 3 = ''FR''"
  "substring0 (toUpperCase (trim ''GB'')) 3 = ''GB''"
  by (simp_all add: substring0_def toUpperCase_def trim_def char_eval)

lemma sample_parsed:
  "parsePlayerDataFromCSV sampleHeaders [''Ann'', ''DEV'', ''FR''] 1 0 = Inr (sampleCard 1 ''Ann'' ''DEV'' ''FR'')"
  "parsePlayerDataFromCSV sampleHeaders ['''', ''DEV'', ''FR''] 2 0 = Inr (sampleCard 2 [] ''DEV'' ''FR'')"
  "parsePlayerDataFromCSV sampleHeaders [''Bob'', ''QA'', ''GB''] 3 0 = Inr (sampleCard 3 ''Bob'' ''QA'' ''GB'')"
  unfolding sampleCard_def
  by (simp_all only: sample_parse [OF sample_positions(1)] sample_parse [OF sample_positions(2)]
        sanitize_short sample_nationalities)

lemma sampleCard_valid:
  "validatePlayerData (sampleCard i nm pos natl) =
     \<lparr> isValid = (nm \<noteq> [] \<and> pos \<noteq> [] \<and> 2 \<le> length natl),
       validationErrors =
         (if nm = [] then [''Name is required''] else [])
         @ (if pos = [] then [''Position is required''] else [])
         @ (if natl = [] \<or> length natl < 2 then [''Valid nationality code is required''] else []),
       validationWarnings =
         (if length nm > 25 then [''Name is quite long and may not display well''] else []) \<rparr>"
  by (auto simp: validatePlayerData_def sampleCard_def Let_def)

lemma sample_rows:
  "csvRowAlone sampleHeaders 0 1 ''Ann,DEV,FR'' =
     \<lparr> success = [sampleCard 1 ''Ann'' ''DEV'' ''FR''], errors = [], warnings = [] \<rparr>"
  "csvRowAlone sampleHeaders 0 2 '',DEV,FR'' =
     \<lparr> success = [],
       errors = [\<lparr> row = 2, rowMessage = ''Name is required'', data = Cells ['''', ''DEV'', ''FR''] \<rparr>],
       warnings = [] \<rparr>"
  "csvRowAlone sampleHeaders 0 3 ''Bob,QA,GB'' =
     \<lparr> success = [sampleCard 3 ''Bob'' ''QA'' ''GB''], errors = [], warnings = [] \<rparr>"
  unfolding csvRowAlone_def processCSVRow_def Let_def sample_cells sample_parsed
  by (simp_all add: acceptOrReject_def sampleCard_valid emptyResult_def)

lemma sample_not_failure: "\<not> csvPipelineFailure (Inr sampleCSV)"
  by (simp only: csvPipelineFailure_def sum.case sample_headers)
     (simp add: sample_lines requiredFields_def sampleHeaders_def)

lemma sample_import:
  "snd (importFromCSV (\<lambda>i. 0) (Inr sampleCSV) initialBatchService) = Inr sampleResult"
proof -
  have e: "enumerate 1 (tl (csvLines sampleCSV)) =
      [(1, ''Ann,DEV,FR''), (2, '',DEV,FR''), (3, ''Bob,QA,GB'')]"
    by (simp add: sample_lines enumerate_simps)
  show ?thesis
    unfolding importFromCSV_result [OF refl sample_not_failure] sample_headers e
      list.map prod.case sample_rows
    by (simp add: sampleResult_def appendResult_def emptyResult_def)
qed

lemma bob_other_fields:
  "property (bobItem r) ''id'' = JUndefined"
  "property (bobItem r) ''profilePhoto'' = JUndefined"
  "property (bobItem r) ''photo'' = JUndefined"
  "property (bobItem r) ''customLogo'' = JUndefined"
  "property (bobItem r) ''logo'' = JUndefined"
  "property (bobItem r) ''theme'' = JUndefined"
  "property (bobItem r) ''backgroundTheme'' = JUndefined"
  "property (bobItem r) ''createdAt'' = JUndefined"
  by (simp_all add: bobItem_def)

lemma bob_parsed:
  assumes "\<not> truthy r"
  shows "parsePlayerDataFromJSON (bobItem r) i now = Inr (bobCard i now)"
proof -
  have c: "calculateOverallRating \<lparr> technical = 99, leadership = 75, creativity = 75,
                 reliability = 75, collaboration = 75, adaptability = 75 \<rparr> = 79"
    by (simp add: calculateOverallRating_div)
  have t: "validateTheme JUndefined = ''gold-classic''"
    by (simp add: validateTheme_def)
  have o: "orElse JUndefined v = v" for v by (simp add: orElse_def)
  have d: "newDate (JNum now) = Inr (NewDate (JNum now))" by (simp add: newDate_def bindE_def)
  show ?thesis
    unfolding parsePlayerDataFromJSON_def bob_stat bob_fields bob_other_fields Let_def bobCard_def
    using assms by (simp add: bindE_def c t o d)
qed

lemma null_parsed:
  "parsePlayerDataFromJSON JNull i now =
     Inl (TypeError ''Cannot read properties of null or undefined: technical'')"
  by (simp add: parsePlayerDataFromJSON_def statFromJSON_def getProp_def nullish_def bindE_def)

lemma bobCard_valid:
  "validatePlayerData (bobCard i now) =
     \<lparr> isValid = True, validationErrors = [], validationWarnings = [] \<rparr>"
  by (simp add: validatePlayerData_def bobCard_def Let_def)

lemma sampleJSON_array: "playersArrayOf sampleJSON = Inr [bobItem (JNum 0), JNull]"
  by (simp add: playersArrayOf_def sampleJSON_def getProp_def nullish_def bindE_def)

lemma sampleJSON_import:
  "snd (importFromJSON (\<lambda>i. 0) (Inr sampleJSON) initialBatchService) = Inr sampleJSONResult"
proof -
  have b: "parsePlayerDataFromJSON (bobItem (JNum 0)) 0 0 = Inr (bobCard 0 0)"
    by (rule bob_parsed) simp
  have r1: "jsonItemAlone 0 0 (bobItem (JNum 0)) =
      \<lparr> success = [bobCard 0 0], errors = [], warnings = [] \<rparr>"
    unfolding jsonItemAlone_def processJSONItem_def b
    by (simp add: acceptOrReject_def bobCard_valid emptyResult_def)
  have r2: "jsonItemAlone 0 1 JNull =
      \<lparr> success = [],
        errors = [\<lparr> row = 2,
                  rowMessage = ''Cannot read properties of null or undefined: technical'',
                  data = Item JNull \<rparr>],
        warnings = [] \<rparr>"
    unfolding jsonItemAlone_def processJSONItem_def null_parsed
    by (simp add: emptyResult_def)
  have e: "enumerate 0 [bobItem (JNum 0), JNull] = [(0, bobItem (JNum 0)), (1, JNull)]"
    by (simp add: enumerate_simps)
  show ?thesis
    unfolding importFromJSON_result [OF refl sampleJSON_array] e list.map prod.case r1 r2
    by (simp add: sampleJSONResult_def appendResult_def emptyResult_def)
qed


section \<open>Import results and progress\<close>

text \<open>
  C2. A pipeline-level failure (the file is unreadable or has no line that is not
  blank, or a required CSV header is missing; the JSON is unreadable or has no
  recognized top-level shape) is exactly when the import call fails; the call has then
  set the progress to \<open>error\<close> with the error's message, returns no result, and the
  cards of the batch are those from before the call. Otherwise the call returns the
  results of its rows, each one processed on its own, merged in the order of the rows:
  a row that fails to parse or to validate is one error report with the row's index
  and its raw input (the cells or the line of a CSV row, the item of a JSON array), every
  other row is one accepted card, and the accepted cards and error reports together are
  as many as the rows.
\<close>

theorem import_partial_failure:
  "(csvPipelineFailure fileText \<longleftrightarrow> (\<exists>e. snd (importFromCSV clock fileText st) = Inl e))
   \<and> (snd (importFromCSV clock fileText st) = Inl e1 \<longrightarrow>
        aborted st (fst (importFromCSV clock fileText st)) e1)
   \<and> (fileText = Inr csv \<and> \<not> csvPipelineFailure fileText \<longrightarrow>
        snd (importFromCSV clock fileText st) =
          Inr (mergeResults (map (\<lambda>(i, line). csvRowAlone (csvHeaders (csvLines csv)) (clock i) i line)
                 (enumerate 1 (tl (csvLines csv)))))
        \<and> (\<forall>result. snd (importFromCSV clock fileText st) = Inr result \<longrightarrow>
              length (success result) + length (errors result) = length (csvLines csv) - 1))
   \<and> (case parsePlayerDataFromCSV headers (parseCSVLine line) k now of
         Inl e \<Rightarrow>
           csvRowAlone headers now k line =
             \<lparr> success = [],
               errors = [\<lparr> row = k, rowMessage = errorMessage e, data = Line line \<rparr>],
               warnings = [] \<rparr>
       | Inr p \<Rightarrow>
           if isValid (validatePlayerData p)
           then success (csvRowAlone headers now k line) = [p]
                \<and> errors (csvRowAlone headers now k line) = []
                \<and> (\<forall>w \<in> set (warnings (csvRowAlone headers now k line)). row w = k \<and> data w = Player p)
           else csvRowAlone headers now k line =
                  \<lparr> success = [],
                    errors = [\<lparr> row = k,
                               rowMessage = join '', '' (validationErrors (validatePlayerData p)),
                               data = Cells (parseCSVLine line) \<rparr>],
                    warnings = [] \<rparr>)
   \<and> (jsonPipelineFailure parsed \<longleftrightarrow> (\<exists>e. snd (importFromJSON clock parsed st) = Inl e))
   \<and> (snd (importFromJSON clock parsed st) = Inl e2 \<longrightarrow>
        aborted st (fst (importFromJSON clock parsed st)) e2)
   \<and> (parsed = Inr jsonData \<and> playersArrayOf jsonData = Inr playersArray \<longrightarrow>
        snd (importFromJSON clock parsed st) =
          Inr (mergeResults (map (\<lambda>(i, jsonItem). jsonItemAlone (clock i) i jsonItem)
                 (enumerate 0 playersArray)))
        \<and> (\<forall>result. snd (importFromJSON clock parsed st) = Inr result \<longrightarrow>
              length (success result) + length (errors result) = length playersArray))
   \<and> (case parsePlayerDataFromJSON jsonItem k' now' of
         Inl e \<Rightarrow>
           jsonItemAlone now' k' jsonItem =
             \<lparr> success = [],
               errors = [\<lparr> row = k' + 1, rowMessage = errorMessage e, data = Item jsonItem \<rparr>],
               warnings = [] \<rparr>
       | Inr p \<Rightarrow>
           if isValid (validatePlayerData p)
           then success (jsonItemAlone now' k' jsonItem) = [p]
                \<and> errors (jsonItemAlone now' k' jsonItem) = []
                \<and> (\<forall>w \<in> set (warnings (jsonItemAlone now' k' jsonItem)). row w = k' + 1 \<and> data w = Player p)
           else jsonItemAlone now' k' jsonItem =
                  \<lparr> success = [],
                    errors = [\<lparr> row = k' + 1,
                               rowMessage = join '', '' (validationErrors (validatePlayerData p)),
                               data = Item jsonItem \<rparr>],
                    warnings = [] \<rparr>)"
proof -
  have csv_count: "length (success result) + length (errors result) = length (csvLines csv) - 1"
    if "fileText = Inr csv" "\<not> csvPipelineFailure fileText"
      "snd (importFromCSV clock fileText st) = Inr result" for result
  proof -
    let ?rs = "map (\<lambda>(i, line). csvRowAlone (csvHeaders (csvLines csv)) (clock i) i line)
                 (enumerate 1 (tl (csvLines csv)))"
    from that importFromCSV_result [OF that(1,2), of clock st] have "result = mergeResults ?rs"
      by simp
    moreover have "\<forall>r \<in> set ?rs. length (success r) + length (errors r) = 1"
      by (auto simp: csvRowAlone_count)
    ultimately show ?thesis
      using mergeResults_count [of ?rs] by simp
  qed
  have json_count: "length (success result) + length (errors result) = length playersArray"
    if "parsed = Inr jsonData" "playersArrayOf jsonData = Inr playersArray"
      "snd (importFromJSON clock parsed st) = Inr result" for result
  proof -
    let ?rs = "map (\<lambda>(i, jsonItem). jsonItemAlone (clock i) i jsonItem) (enumerate 0 playersArray)"
    from that importFromJSON_result [OF that(1,2), of clock st] have "result = mergeResults ?rs"
      by simp
    moreover have "\<forall>r \<in> set ?rs. length (success r) + length (errors r) = 1"
      by (auto simp: jsonItemAlone_count)
    ultimately show ?thesis
      using mergeResults_count [of ?rs] by simp
  qed
  show ?thesis
    using importFromCSV_Inl_iff [of clock fileText st] importFromCSV_aborted [of clock fileText st e1]
      importFromCSV_result [of fileText csv clock st] csv_count
      csvRowAlone_cases [where headers=headers and line=line and i=k and now=now]
      importFromJSON_Inl_iff [of clock parsed st] importFromJSON_aborted [of clock parsed st e2]
      importFromJSON_result [of parsed jsonData playersArray clock st] json_count
      jsonItemAlone_cases [where jsonItem=jsonItem and i=k' and now=now']
    by (intro conjI impI allI) blast+
qed

lemma noRequiredHeader_failure: "csvPipelineFailure (Inr noRequiredHeader)"
proof -
  have l: "csvLines noRequiredHeader = [''position,nationality'', ''DEV,FR'']"
    by (simp add: csvLines_def noRequiredHeader_def trim_def char_eval)
  have h: "csvHeaders [''position,nationality'', ''DEV,FR''] = [''position'', ''nationality'']"
    by (simp add: csvHeaders_def toLowerCase_def trim_def char_eval)
  show ?thesis
    by (simp add: csvPipelineFailure_def l h requiredFields_def)
qed

lemma unknownShape_failure: "jsonPipelineFailure (Inr (JObj [(''items'', JArr [])]))"
  by (simp add: jsonPipelineFailure_def recognizedShape_def isArray_def)

lemma aborted_fields:
  assumes "aborted initialBatchService st' e"
  shows "status (last (batchProgress st')) = error" and "batchCards st' = []"
  using assms unfolding aborted_def by (simp_all add: initialBatchService_def)

text \<open>The sample CSV: the row without a name is the error report of row 2, the two
  other rows are imported. A file without the header \<open>name\<close> and a JSON object with
  neither \<open>cards\<close> nor \<open>players\<close> fail. The sample JSON: the \<open>null\<close> item is the error
  report of row 2, the other item is imported.\<close>

theorem import_partial_failure_witness:
  "\<not> csvPipelineFailure (Inr sampleCSV)
   \<and> snd (importFromCSV (\<lambda>i. 0) (Inr sampleCSV) initialBatchService) = Inr sampleResult
   \<and> length (success sampleResult) + length (errors sampleResult) = 3
   \<and> map row (errors sampleResult) = [2]
   \<and> csvPipelineFailure (Inr noRequiredHeader)
   \<and> (\<exists>e. snd (importFromCSV (\<lambda>i. 0) (Inr noRequiredHeader) initialBatchService) = Inl e)
   \<and> status (last (batchProgress
         (fst (importFromCSV (\<lambda>i. 0) (Inr noRequiredHeader) initialBatchService)))) = error
   \<and> batchCards (fst (importFromCSV (\<lambda>i. 0) (Inr noRequiredHeader) initialBatchService)) = []
   \<and> jsonPipelineFailure (Inr (JObj [(''items'', JArr [])]))
   \<and> (\<exists>e. snd (importFromJSON (\<lambda>i. 0) (Inr (JObj [(''items'', JArr [])])) initialBatchService) = Inl e)
   \<and> status (last (batchProgress
         (fst (importFromJSON (\<lambda>i. 0) (Inr (JObj [(''items'', JArr [])])) initialBatchService))))
       = error
   \<and> snd (importFromJSON (\<lambda>i. 0) (Inr sampleJSON) initialBatchService) = Inr sampleJSONResult
   \<and> length (success sampleJSONResult) + length (errors sampleJSONResult) = 2"
proof -
  note t1 = import_partial_failure [where fileText="Inr sampleCSV" and csv=sampleCSV
      and clock="\<lambda>i. 0" and st=initialBatchService and parsed="Inr sampleJSON"
      and jsonData=sampleJSON and playersArray="[bobItem (JNum 0), JNull]"]
  note t2 = import_partial_failure [where fileText="Inr noRequiredHeader"
      and clock="\<lambda>i. 0" and st=initialBatchService and parsed="Inr (JObj [(''items'', JArr [])])"]
  have c: "length (success sampleResult) + length (errors sampleResult) = length (csvLines sampleCSV) - 1"
    using t1 sample_not_failure sample_import by blast
  have j: "length (success sampleJSONResult) + length (errors sampleJSONResult)
      = length [bobItem (JNum 0), JNull]"
    using t1 sampleJSON_array sampleJSON_import by blast
  have f1': "\<exists>e. snd (importFromCSV (\<lambda>i. 0) (Inr noRequiredHeader) initialBatchService) = Inl e"
    using t2 noRequiredHeader_failure by blast
  have f2': "\<exists>e. snd (importFromJSON (\<lambda>i. 0) (Inr (JObj [(''items'', JArr [])])) initialBatchService) = Inl e"
    using t2 unknownShape_failure by blast
  from f1' obtain e
    where f1: "snd (importFromCSV (\<lambda>i. 0) (Inr noRequiredHeader) initialBatchService) = Inl e" ..
  from f2' obtain e'
    where f2: "snd (importFromJSON (\<lambda>i. 0) (Inr (JObj [(''items'', JArr [])])) initialBatchService) = Inl e'" ..
  from t2 [where ?e1.0=e, THEN conjunct2, THEN conjunct1, THEN mp, OF f1]
  have "aborted initialBatchService
      (fst (importFromCSV (\<lambda>i. 0) (Inr noRequiredHeader) initialBatchService)) e" .
  then have a1: "status (last (batchProgress
         (fst (importFromCSV (\<lambda>i. 0) (Inr noRequiredHeader) initialBatchService)))) = error"
    and a2: "batchCards (fst (importFromCSV (\<lambda>i. 0) (Inr noRequiredHeader) initialBatchService)) = []"
    by (rule aborted_fields(1), rule aborted_fields(2))
  from t2 [where ?e2.0=e', THEN conjunct2, THEN conjunct2, THEN conjunct2, THEN conjunct2,
      THEN conjunct2, THEN conjunct1, THEN mp, OF f2]
  have "aborted initialBatchService
      (fst (importFromJSON (\<lambda>i. 0) (Inr (JObj [(''items'', JArr [])])) initialBatchService)) e'" .
  then have a3: "status (last (batchProgress
         (fst (importFromJSON (\<lambda>i. 0) (Inr (JObj [(''items'', JArr [])])) initialBatchService))))
       = error"
    by (rule aborted_fields(1))
  have r: "map row (errors sampleResult) = [2]" by (simp add: sampleResult_def)
  from c have c': "length (success sampleResult) + length (errors sampleResult) = 3"
    by (simp add: sample_lines)
  from j have j': "length (success sampleJSONResult) + length (errors sampleJSONResult) = 2"
    by simp
  show ?thesis
    using sample_not_failure sample_import c' r noRequiredHeader_failure f1' a1 a2
      unknownShape_failure f2' a3 sampleJSON_import j'
    by (intro conjI)
qed

text \<open>
  C8. When an import call returns a result (no pipeline-level error), the last progress
  snapshot it has emitted has the status \<open>completed\<close>, and its \<open>current\<close> and \<open>total\<close> are
  both the number of accepted cards; these cards are the cards of the batch.
\<close>

theorem import_completed_progress:
  "(snd (importFromCSV clock fileText st) = Inr result \<longrightarrow>
      last (batchProgress (fst (importFromCSV clock fileText st))) =
        \<lparr> current = length (success result), total = length (success result),
          status = completed,
          message = ''Imported '' @ showNat (length (success result)) @ '' cards successfully'' \<rparr>
      \<and> batchCards (fst (importFromCSV clock fileText st)) = success result)
   \<and> (snd (importFromJSON clock parsed st) = Inr result' \<longrightarrow>
      last (batchProgress (fst (importFromJSON clock parsed st))) =
        \<lparr> current = length (success result'), total = length (success result'),
          status = completed,
          message = ''Imported '' @ showNat (length (success result')) @ '' cards successfully'' \<rparr>
      \<and> batchCards (fst (importFromJSON clock parsed st)) = success result')"
  using importFromCSV_completed [of clock fileText st result]
    importFromJSON_completed [of clock parsed st result']
  by blast

text \<open>Three rows, one of them without a name: two cards, and the last snapshot
  counts 2 of 2. Two JSON items, one of them \<open>null\<close>: 1 of 1.\<close>

theorem import_completed_progress_witness:
  "snd (importFromCSV (\<lambda>i. 0) (Inr sampleCSV) initialBatchService) = Inr sampleResult
   \<and> last (batchProgress (fst (importFromCSV (\<lambda>i. 0) (Inr sampleCSV) initialBatchService))) =
        \<lparr> current = 2, total = 2, status = completed, message = ''Imported 2 cards successfully'' \<rparr>
   \<and> snd (importFromJSON (\<lambda>i. 0) (Inr sampleJSON) initialBatchService) = Inr sampleJSONResult
   \<and> last (batchProgress (fst (importFromJSON (\<lambda>i. 0) (Inr sampleJSON) initialBatchService))) =
        \<lparr> current = 1, total = 1, status = completed, message = ''Imported 1 cards successfully'' \<rparr>"
proof -
  note t = import_completed_progress [where fileText="Inr sampleCSV" and clock="\<lambda>i. 0"
      and st=initialBatchService and result=sampleResult and parsed="Inr sampleJSON"
      and result'=sampleJSONResult]
  have n: "length (success sampleResult) = 2" "length (success sampleJSONResult) = 1"
    by (simp_all add: sampleResult_def sampleJSONResult_def)
  from t sample_import sampleJSON_import show ?thesis
    unfolding n by (simp add: sample_import sampleJSON_import digitChar_def char_of_def bit_Suc_0_iff)
qed


section \<open>Photo matching\<close>

lemma isWhiteSpace_toLowerChar: "isWhiteSpace (toLowerChar ch) = isWhiteSpace ch"
proof -
  have "charCode ch < 256" by (rule charCode_less)
  then show ?thesis
    by (auto simp: isWhiteSpace_def toLowerChar_def charCode_def)
qed

lemma photoKey_Nil: "photoKey [] = []"
  by (simp add: photoKey_def toLowerCase_def)

lemma photoKey_Cons:
  "\<not> isWhiteSpace ch \<Longrightarrow> photoKey (ch # s) = toLowerChar ch # photoKey s"
  by (simp add: photoKey_def toLowerCase_def isWhiteSpace_toLowerChar)

lemma dropWhile_isWhiteSpace_toLowerCase:
  "dropWhile isWhiteSpace (map toLowerChar s) = map toLowerChar (dropWhile isWhiteSpace s)"
  by (induction s) (simp_all add: isWhiteSpace_toLowerChar)

lemma photoKey_run:
  assumes "ws \<noteq> []" and "\<forall>x \<in> set ws. isWhiteSpace x" and "s = [] \<or> \<not> isWhiteSpace (hd s)"
  shows "photoKey (ws @ s) = CHR ''_'' # photoKey s"
proof -
  from assms(1) obtain w ws' where ws: "ws = w # ws'" by (cases ws) auto
  from assms(3) have d: "dropWhile isWhiteSpace s = s" by (cases s) auto
  from assms(2) ws have "dropWhile isWhiteSpace (ws' @ s) = dropWhile isWhiteSpace s"
    by (simp add: dropWhile_append)
  with d have "dropWhile isWhiteSpace (map toLowerChar (ws' @ s)) = map toLowerChar s"
    by (simp only: dropWhile_isWhiteSpace_toLowerCase)
  with assms(2) ws show ?thesis
    by (simp add: photoKey_def toLowerCase_def isWhiteSpace_toLowerChar)
qed

lemma photoKey_johnSmith: "photoKey ''John Smith'' = ''john_smith''"
  by (simp add: photoKey_def toLowerCase_def char_eval)

lemma photoKey_ericBlanc:
  "photoKey ([CHR 0xC9] @ ''ric'' @ [CHR 0x09] @ ''  Blanc'') = [CHR 0xE9] @ ''ric_blanc''"
  by (simp add: photoKey_def toLowerCase_def char_eval)

lemma Map_set_values:
  "\<forall>v \<in> snd ` set kvs. P v \<Longrightarrow> P v0 \<Longrightarrow> \<forall>v \<in> snd ` set (Map_set key v0 kvs). P v"
  by (induction key v0 kvs rule: Map_set.induct) auto

lemma photoFiles_dataURLs:
  "\<forall>v \<in> snd ` set photoMap. prefix ''data:'' v
     \<Longrightarrow> \<forall>v \<in> snd ` set (snd (photoFiles n i files (st, photoMap))). prefix ''data:'' v"
proof (induction files arbitrary: i st photoMap)
  case Nil
  then show ?case by simp
next
  case (Cons entry rest)
  show ?case
  proof (cases "dataURL entry")
    case None
    with Cons show ?thesis by simp
  next
    case (Some url)
    have "\<forall>v \<in> snd ` set (Map_set (toLowerCase (stripExtension (entryName entry)))
              (''data:'' @ url) photoMap). prefix ''data:'' v"
      by (rule Map_set_values [OF Cons.prems]) simp
    from Cons.IH [OF this] Some show ?thesis by (simp add: Let_def)
  qed
qed

lemma storesDataURLs_map_of:
  "\<forall>v \<in> snd ` set kvs. prefix ''data:'' v \<Longrightarrow> storesDataURLs (map_of kvs)"
  unfolding storesDataURLs_def ran_def by (auto dest!: map_of_SomeD)

lemma importPhotoLibrary_library:
  assumes "storesDataURLs (photoLibrary st)"
  shows "storesDataURLs (photoLibrary (fst (importPhotoLibrary zipContent st)))"
proof (cases zipContent)
  case (Inl e)
  with assms show ?thesis by (simp add: importPhotoLibrary_def updateProgress_def)
next
  case (Inr files)
  let ?imageFiles = "filter (\<lambda>file. isImageName (entryName file) \<and> \<not> dir file) files"
  let ?st1 = "updateProgress 0 0 processing ''Extracting photos from ZIP...'' st"
  obtain st2 photoMap where l: "photoFiles (length ?imageFiles) 0 ?imageFiles (?st1, []) = (st2, photoMap)"
    by (cases "photoFiles (length ?imageFiles) 0 ?imageFiles (?st1, [])")
  from photoFiles_dataURLs [of "[]" "length ?imageFiles" 0 ?imageFiles ?st1]
  have "\<forall>v \<in> snd ` set photoMap. prefix ''data:'' v" unfolding l by simp
  then have "storesDataURLs (map_of photoMap)" by (rule storesDataURLs_map_of)
  with Inr l show ?thesis by (simp add: importPhotoLibrary_def Let_def updateProgress_def)
qed

lemma finishImport_library: "photoLibrary (fst (finishImport p)) = photoLibrary (fst p)"
  by (cases p) (simp add: finishImport_simps)

lemma importFromCSV_library:
  "photoLibrary (fst (importFromCSV clock fileText st)) = photoLibrary st"
  by (simp add: importFromCSV_def Let_def failImport_simps finishImport_library csvRows_state
        updateProgress_def split: sum.splits)

lemma importFromJSON_library:
  "photoLibrary (fst (importFromJSON clock parsed st)) = photoLibrary st"
  by (simp add: importFromJSON_def Let_def failImport_simps finishImport_library jsonItems_state
        updateProgress_def split: sum.splits)

lemma reachable_storesDataURLs: "reachable st \<Longrightarrow> storesDataURLs (photoLibrary st)"
proof (induction rule: reachable.induct)
  case constructed
  show ?case by (simp add: initialBatchService_def storesDataURLs_def)
next
  case (afterImportFromCSV st clock fileText)
  then show ?case by (simp add: importFromCSV_library)
next
  case (afterImportFromJSON st clock parsed)
  then show ?case by (simp add: importFromJSON_library)
next
  case (afterImportPhotoLibrary st zipContent)
  from afterImportPhotoLibrary.IH show ?case by (rule importPhotoLibrary_library)
next
  case (afterMatchPhotosToPlayers st)
  then show ?case by (simp add: matchPhotosToPlayers_def Let_def)
next
  case (afterClearBatch st)
  show ?case by (simp add: clearBatch_def updateProgress_def storesDataURLs_def)
qed


lemma storesDataURLs_nonempty:
  "storesDataURLs photos \<Longrightarrow> photos key = Some photo \<Longrightarrow> photo \<noteq> []"
  by (auto simp: storesDataURLs_def ran_def)

lemma matchPhoto_stored:
  assumes "storesDataURLs photos"
  shows "matchPhoto photos c =
     (if \<not> truthy (profilePhoto c)
      then (case photos (photoKey (name c)) of
              Some photo \<Rightarrow> c\<lparr> profilePhoto := JStr photo \<rparr>
            | None \<Rightarrow> c)
      else c)"
  using storesDataURLs_nonempty [OF assms]
  by (auto simp: matchPhoto_def Let_def split: option.splits)

text \<open>
  C9. Every library the service can hold stores \<open>data:\<close> URLs. On such a library, and
  for every list of cards, \<open>matchPhotosToPlayers\<close> keeps the number and the order of
  the cards, the progress and the library. A card whose photo is falsy (absent, or the
  empty string) and whose key is in the library gets the image of that key as its
  \<open>profilePhoto\<close>, so it has a photo afterwards, and is otherwise the same card; a card
  that has a photo or whose key is not in the library is the same card afterwards.
  The key of a name is read off from the left: a code unit that is no white space
  gives its small letter, a maximal run of white space gives one underscore, and
  \<open>John Smith\<close> has the key \<open>john_smith\<close>.
\<close>

theorem matchPhotosToPlayers_frame:
  "(reachable st' \<longrightarrow> storesDataURLs (photoLibrary st'))
   \<and> (storesDataURLs (photoLibrary st) \<longrightarrow>
        length (batchCards (matchPhotosToPlayers st)) = length (batchCards st)
      \<and> batchProgress (matchPhotosToPlayers st) = batchProgress st
      \<and> photoLibrary (matchPhotosToPlayers st) = photoLibrary st
      \<and> (\<forall>i photo. i < length (batchCards st) \<longrightarrow>
            (\<not> truthy (profilePhoto (batchCards st ! i))
               \<and> photoLibrary st (photoKey (name (batchCards st ! i))) = Some photo
             \<longrightarrow> batchCards (matchPhotosToPlayers st) ! i
                   = (batchCards st ! i)\<lparr> profilePhoto := JStr photo \<rparr>
                 \<and> truthy (profilePhoto (batchCards (matchPhotosToPlayers st) ! i)))
          \<and> (truthy (profilePhoto (batchCards st ! i))
               \<or> photoLibrary st (photoKey (name (batchCards st ! i))) = None
             \<longrightarrow> batchCards (matchPhotosToPlayers st) ! i = batchCards st ! i)))
   \<and> photoKey [] = []
   \<and> (\<not> isWhiteSpace ch \<longrightarrow> photoKey (ch # s) = toLowerChar ch # photoKey s)
   \<and> (ws \<noteq> [] \<and> (\<forall>x \<in> set ws. isWhiteSpace x) \<and> (s = [] \<or> \<not> isWhiteSpace (hd s))
        \<longrightarrow> photoKey (ws @ s) = CHR ''_'' # photoKey s)
   \<and> photoKey ''John Smith'' = ''john_smith''"
proof -
  have m: "length (batchCards (matchPhotosToPlayers st)) = length (batchCards st)
      \<and> batchProgress (matchPhotosToPlayers st) = batchProgress st
      \<and> photoLibrary (matchPhotosToPlayers st) = photoLibrary st
      \<and> (\<forall>i photo. i < length (batchCards st) \<longrightarrow>
            (\<not> truthy (profilePhoto (batchCards st ! i))
               \<and> photoLibrary st (photoKey (name (batchCards st ! i))) = Some photo
             \<longrightarrow> batchCards (matchPhotosToPlayers st) ! i
                   = (batchCards st ! i)\<lparr> profilePhoto := JStr photo \<rparr>
                 \<and> truthy (profilePhoto (batchCards (matchPhotosToPlayers st) ! i)))
          \<and> (truthy (profilePhoto (batchCards st ! i))
               \<or> photoLibrary st (photoKey (name (batchCards st ! i))) = None
             \<longrightarrow> batchCards (matchPhotosToPlayers st) ! i = batchCards st ! i))"
    if d: "storesDataURLs (photoLibrary st)"
    using storesDataURLs_nonempty [OF d]
    by (auto simp: matchPhotosToPlayers_def Let_def matchPhoto_stored [OF d])
  from m reachable_storesDataURLs [of st'] photoKey_Nil photoKey_Cons [of ch s]
    photoKey_run [of ws s] photoKey_johnSmith
  show ?thesis by (intro conjI impI) blast+
qed

lemma sampleZip_library:
  "photoLibrary (fst (importPhotoLibrary (Inr sampleZip) initialBatchService))
     = [''john_smith'' \<mapsto> ''data:image/png;base64,iVBORw=='']"
  by (simp add: importPhotoLibrary_def sampleZip_def isImageName_def imageExtensions_def
        endsWithCI_def stripExtension_def toLowerCase_def updateProgress_def Let_def char_eval)

text \<open>The library read from the sample archive holds one image, under \<open>john_smith\<close>.
  John Smith without a photo gets it; the John Smith with a photo keeps that photo, and
  the card whose key is not in the library stays as it is.\<close>

theorem matchPhotosToPlayers_frame_witness:
  "reachable (fst (importPhotoLibrary (Inr sampleZip) initialBatchService))
   \<and> batchCards (matchPhotosToPlayers
        ((fst (importPhotoLibrary (Inr sampleZip) initialBatchService))
           \<lparr> batchCards := [johnSmith, johnSmith\<lparr> profilePhoto := JStr ''data:old'' \<rparr>, ericBlanc] \<rparr>))
     = [johnSmith\<lparr> profilePhoto := JStr ''data:image/png;base64,iVBORw=='' \<rparr>,
        johnSmith\<lparr> profilePhoto := JStr ''data:old'' \<rparr>, ericBlanc]
   \<and> photoKey (CHR 0xC9 # ''Blanc'') = CHR 0xE9 # ''blanc''
   \<and> photoKey ([CHR 0x09, CHR '' '', CHR '' ''] @ ''Blanc'') = ''_blanc''"
proof -
  let ?lib = "fst (importPhotoLibrary (Inr sampleZip) initialBatchService)"
  let ?cards = "[johnSmith, johnSmith\<lparr> profilePhoto := JStr ''data:old'' \<rparr>, ericBlanc]"
  let ?st = "?lib\<lparr> batchCards := ?cards \<rparr>"
  note f = matchPhotosToPlayers_frame [where st'="?lib" and st="?st" and ch="CHR 0xC9"
      and s="''Blanc''" and ws="[CHR 0x09, CHR '' '', CHR '' '']"]
  have r: "reachable ?lib"
    by (rule reachable.afterImportPhotoLibrary) (rule reachable.constructed)
  from f r have "storesDataURLs (photoLibrary ?lib)" by blast
  then have d: "storesDataURLs (photoLibrary ?st)" by simp
  note g = f [THEN conjunct2, THEN conjunct1, THEN mp, OF d]
  have lib: "photoLibrary ?st = [''john_smith'' \<mapsto> ''data:image/png;base64,iVBORw=='']"
    by (simp add: sampleZip_library)
  have b: "photoKey ''Blanc'' = ''blanc''"
    by (simp add: photoKey_def toLowerCase_def char_eval)
  have k1: "photoKey (name johnSmith) = ''john_smith''"
    using f by (simp add: johnSmith_def)
  have k3: "photoKey (name ericBlanc) = [CHR 0xE9] @ ''ric_blanc''"
    by (simp add: ericBlanc_def photoKey_def toLowerCase_def char_eval)
  have l: "length (batchCards (matchPhotosToPlayers ?st)) = 3"
    using g by simp
  have c0: "batchCards (matchPhotosToPlayers ?st) ! 0
      = johnSmith\<lparr> profilePhoto := JStr ''data:image/png;base64,iVBORw=='' \<rparr>"
    using g [THEN conjunct2, THEN conjunct2, THEN conjunct2, THEN spec, of 0]
    by (simp add: lib k1) (simp add: johnSmith_def)
  have c1: "batchCards (matchPhotosToPlayers ?st) ! 1 = johnSmith\<lparr> profilePhoto := JStr ''data:old'' \<rparr>"
    using g [THEN conjunct2, THEN conjunct2, THEN conjunct2, THEN spec, of 1]
    by simp
  have c2: "batchCards (matchPhotosToPlayers ?st) ! 2 = ericBlanc"
    using g [THEN conjunct2, THEN conjunct2, THEN conjunct2, THEN spec, of 2]
    by (simp add: lib k3)
  have cards: "batchCards (matchPhotosToPlayers ?st)
     = [johnSmith\<lparr> profilePhoto := JStr ''data:image/png;base64,iVBORw=='' \<rparr>,
        johnSmith\<lparr> profilePhoto := JStr ''data:old'' \<rparr>, ericBlanc]"
    using l c0 c1 c2 by (auto simp: list_eq_iff_nth_eq less_Suc_eq numeral_3_eq_3 numeral_2_eq_2)
  have w: "\<not> isWhiteSpace (CHR 0xC9)" "\<forall>x \<in> set [CHR 0x09, CHR '' '', CHR '' '']. isWhiteSpace x"
    "\<not> isWhiteSpace (hd ''Blanc'')"
    by (simp_all add: char_eval)
  from f w(1) have e1: "photoKey (CHR 0xC9 # ''Blanc'') = toLowerChar (CHR 0xC9) # photoKey ''Blanc''"
    by blast
  from f w(2,3) have e2: "photoKey ([CHR 0x09, CHR '' '', CHR '' ''] @ ''Blanc'') = CHR ''_'' # photoKey ''Blanc''"
    by blast
  have e1': "photoKey (CHR 0xC9 # ''Blanc'') = CHR 0xE9 # ''blanc''"
    unfolding e1 b by (simp add: char_eval)
  have e2': "photoKey ([CHR 0x09, CHR '' '', CHR '' ''] @ ''Blanc'') = ''_blanc''"
    unfolding e2 b by simp
  from r cards e1' e2' show ?thesis by (intro conjI)
qed


section \<open>The rating invariant\<close>

lemma parsePlayerDataFromCSV_Inr:
  assumes "parsePlayerDataFromCSV headers values i now = Inr p"
  shows "manualRating p = Some (getValue headers values ''rating'' \<noteq> [])"
    and "rating p = getNumericValue headers values ''rating'' (calculateOverallRating (stats p))"
proof -
  let ?s = "\<lparr> technical = getNumericValue headers values ''technical'' 75,
              leadership = getNumericValue headers values ''leadership'' 75,
              creativity = getNumericValue headers values ''creativity'' 75,
              reliability = getNumericValue headers values ''reliability'' 75,
              collaboration = getNumericValue headers values ''collaboration'' 75,
              adaptability = getNumericValue headers values ''adaptability'' 75 \<rparr>"
  from assms [unfolded parsePlayerDataFromCSV_def Let_def bindE_Inr_iff]
  obtain pos where
    p: "Inr \<lparr> id' = JStr (''batch_'' @ showNat i @ ''_'' @ showInt now),
                 name = sanitizeInput (getValue headers values ''name'') 30,
                 position = pos,
                 nationality = substring0 (toUpperCase (getValue headers values ''nationality'')) 3,
                 rating = getNumericValue headers values ''rating'' (calculateOverallRating ?s),
                 manualRating = Some (getValue headers values ''rating'' \<noteq> []),
                 stats = ?s,
                 profilePhoto = JUndefined,
                 backgroundTheme = validateTheme (JStr (getValue headers values ''theme'')),
                 customLogo = JUndefined,
                 createdAt = Some (NewDate (JNum now)),
                 updatedAt = Some (NewDate (JNum now)) \<rparr> = (Inr p :: jserror + PlayerData)"
    by blast
  note pe = p [unfolded sum.inject, symmetric]
  have f1: "stats p = ?s" unfolding pe by simp
  show "manualRating p = Some (getValue headers values ''rating'' \<noteq> [])"
    unfolding pe by simp
  show "rating p = getNumericValue headers values ''rating'' (calculateOverallRating (stats p))"
    unfolding f1 unfolding pe by simp
qed

lemma parsePlayerDataFromCSV_invariant:
  assumes "parsePlayerDataFromCSV headers values i now = Inr p" and "manualRating p \<noteq> Some True"
  shows "rating p = calculateOverallRating (stats p)"
proof -
  from parsePlayerDataFromCSV_Inr(1) [OF assms(1)] assms(2)
  have "getValue headers values ''rating'' = []" by simp
  with parsePlayerDataFromCSV_Inr(2) [OF assms(1)] show ?thesis
    by (simp add: getNumericValue_def parseInt10_def)
qed

lemma parsePlayerDataFromJSON_invariant:
  assumes "parsePlayerDataFromJSON jsonItem i now = Inr p" and "manualRating p \<noteq> Some True"
  shows "rating p = calculateOverallRating (stats p)"
  using parsePlayerDataFromJSON_Inr(1,2) [OF assms(1)] assms(2) by simp

lemma importFromCSV_accepted:
  assumes "snd (importFromCSV clock fileText st) = Inr result" and "q \<in> set (success result)"
  shows "\<exists>headers values i now. parsePlayerDataFromCSV headers values i now = Inr q"
proof -
  from assms(1) have n: "\<not> csvPipelineFailure fileText"
    using importFromCSV_Inl_iff [of clock fileText st] by auto
  then obtain csv where c: "fileText = Inr csv"
    by (cases fileText) (simp_all add: csvPipelineFailure_def)
  from importFromCSV_result [OF c n, of clock st] assms
  obtain k line where "q \<in> set (success (csvRowAlone (csvHeaders (csvLines csv)) (clock k) k line))"
    by (auto simp: success_mergeResults)
  from csvRowAlone_success [OF this] show ?thesis by blast
qed

lemma importFromJSON_accepted:
  assumes "snd (importFromJSON clock parsed st) = Inr result" and "q \<in> set (success result)"
  shows "\<exists>jsonItem i now. parsePlayerDataFromJSON jsonItem i now = Inr q"
proof -
  from assms(1) have n: "\<not> jsonPipelineFailure parsed"
    using importFromJSON_Inl_iff [of clock parsed st] by auto
  then obtain jsonData where j: "parsed = Inr jsonData" and "recognizedShape jsonData"
    by (cases parsed) (simp_all add: jsonPipelineFailure_def)
  then obtain arr where a: "playersArrayOf jsonData = Inr arr"
    using playersArrayOf_recognized [of jsonData] by blast
  from importFromJSON_result [OF j a, of clock st] assms
  obtain k jsonItem where "q \<in> set (success (jsonItemAlone (clock k) k jsonItem))"
    by (auto simp: success_mergeResults)
  from jsonItemAlone_success [OF this] show ?thesis by blast
qed

lemma updatePlayer_fields:
  "stats (updatePlayer now player cur) = orKeep (has_stats player) (stats cur)"
  "manualRating (updatePlayer now player cur) = orKeep (has_manualRating player) (manualRating cur)"
  "rating (updatePlayer now player cur) =
     (if has_manualRating player \<noteq> Some (Some True) \<and> has_stats player \<noteq> None
      then calculateOverallRating (orKeep (has_stats player) (stats cur))
      else orKeep (has_rating player) (rating cur))"
  by (simp_all add: updatePlayer_def spread_def Let_def)

text \<open>
  C1, as the code has it. A card that \<open>parsePlayerDataFromCSV\<close> or
  \<open>parsePlayerDataFromJSON\<close> builds, and so every card an import accepts, has the
  rounded mean of its stats as its rating unless its \<open>manualRating\<close> is true. A call of
  \<open>updatePlayer\<close> whose argument carries stats leaves a card for which the same holds:
  unless the \<open>manualRating\<close> of the new card is true, its stats are those of the
  argument and its rating is their rounded mean. (A call whose argument carries no
  stats does not recompute the rating; nothing is said here of a card whose
  \<open>manualRating\<close> is true.)
\<close>

theorem rating_invariant:
  "(parsePlayerDataFromCSV headers values i now = Inr p \<and> manualRating p \<noteq> Some True
      \<longrightarrow> rating p = calculateOverallRating (stats p))
   \<and> (snd (importFromCSV clock fileText st) = Inr result \<and> q \<in> set (success result)
        \<and> manualRating q \<noteq> Some True
      \<longrightarrow> rating q = calculateOverallRating (stats q))
   \<and> (parsePlayerDataFromJSON jsonItem i' now' = Inr p' \<and> manualRating p' \<noteq> Some True
      \<longrightarrow> rating p' = calculateOverallRating (stats p'))
   \<and> (snd (importFromJSON clock parsed st) = Inr result' \<and> q' \<in> set (success result')
        \<and> manualRating q' \<noteq> Some True
      \<longrightarrow> rating q' = calculateOverallRating (stats q'))
   \<and> (has_stats player \<noteq> None \<and> manualRating (updatePlayer t player cur) \<noteq> Some True
      \<longrightarrow> rating (updatePlayer t player cur)
            = calculateOverallRating (stats (updatePlayer t player cur)))
   \<and> (has_stats player = Some s \<and> manualRating (updatePlayer t player cur) \<noteq> Some True
      \<longrightarrow> stats (updatePlayer t player cur) = s
          \<and> rating (updatePlayer t player cur) = calculateOverallRating s)"
proof -
  have a: "rating q = calculateOverallRating (stats q)"
    if "snd (importFromCSV clock fileText st) = Inr result" "q \<in> set (success result)"
      "manualRating q \<noteq> Some True"
    using importFromCSV_accepted [OF that(1,2)] that(3) parsePlayerDataFromCSV_invariant by blast
  have b: "rating q' = calculateOverallRating (stats q')"
    if "snd (importFromJSON clock parsed st) = Inr result'" "q' \<in> set (success result')"
      "manualRating q' \<noteq> Some True"
    using importFromJSON_accepted [OF that(1,2)] that(3) parsePlayerDataFromJSON_invariant by blast
  have c: "rating (updatePlayer t player cur)
            = calculateOverallRating (stats (updatePlayer t player cur))"
    if "has_stats player \<noteq> None" "manualRating (updatePlayer t player cur) \<noteq> Some True"
  proof -
    from that(2) have "has_manualRating player \<noteq> Some (Some True)"
      by (auto simp: updatePlayer_fields orKeep_def)
    with that(1) show ?thesis by (simp add: updatePlayer_fields)
  qed
  have d: "stats (updatePlayer t player cur) = s
          \<and> rating (updatePlayer t player cur) = calculateOverallRating s"
    if "has_stats player = Some s" "manualRating (updatePlayer t player cur) \<noteq> Some True"
  proof -
    from that(2) have "has_manualRating player \<noteq> Some (Some True)"
      by (auto simp: updatePlayer_fields orKeep_def)
    with that(1) show ?thesis by (simp add: updatePlayer_fields orKeep_def)
  qed
  show ?thesis
    using parsePlayerDataFromCSV_invariant [of headers "values" i now p]
      parsePlayerDataFromJSON_invariant [of jsonItem i' now' p'] a b c d
    by (intro conjI impI) blast+
qed

text \<open>Taking the manual flag off a card, as the toggle of the form does with
  \<open>updatePlayer({ manualRating: false })\<close>: the rating stays 99 over stats of 75.\<close>

theorem rating_invariant_counterexample:
  "manualRating (updatePlayer 0 (noKeys\<lparr> has_manualRating := Some (Some False) \<rparr>) manualCard)
     = Some False
   \<and> rating (updatePlayer 0 (noKeys\<lparr> has_manualRating := Some (Some False) \<rparr>) manualCard) = 99
   \<and> calculateOverallRating
        (stats (updatePlayer 0 (noKeys\<lparr> has_manualRating := Some (Some False) \<rparr>) manualCard)) = 75
   \<and> rating (updatePlayer 0 (noKeys\<lparr> has_manualRating := Some (Some False) \<rparr>) manualCard)
     \<noteq> calculateOverallRating
        (stats (updatePlayer 0 (noKeys\<lparr> has_manualRating := Some (Some False) \<rparr>) manualCard))"
  by (simp add: updatePlayer_fields noKeys_def orKeep_def manualCard_def johnSmith_def
        calculateOverallRating_div)

text \<open>New stats with the flag set to false, as the randomizer of the form passes
  them (the new card has the flag false and the rating 80 of the new stats), and the
  accepted cards of the two samples.\<close>

theorem rating_invariant_witness:
  "manualRating (updatePlayer 0
      (noKeys\<lparr> has_stats := Some \<lparr> technical = 80, leadership = 75, creativity = 85,
                   reliability = 70, collaboration = 90, adaptability = 80 \<rparr>,
               has_manualRating := Some (Some False) \<rparr>) manualCard) = Some False
   \<and> rating (updatePlayer 0
      (noKeys\<lparr> has_stats := Some \<lparr> technical = 80, leadership = 75, creativity = 85,
                   reliability = 70, collaboration = 90, adaptability = 80 \<rparr>,
               has_manualRating := Some (Some False) \<rparr>) manualCard) = 80
   \<and> rating (sampleCard 1 ''Ann'' ''DEV'' ''FR'')
       = calculateOverallRating (stats (sampleCard 1 ''Ann'' ''DEV'' ''FR''))
   \<and> rating (bobCard 0 0) = calculateOverallRating (stats (bobCard 0 0))"
proof -
  let ?s = "\<lparr> technical = 80, leadership = 75, creativity = 85,
                   reliability = 70, collaboration = 90, adaptability = 80 :: int \<rparr>"
  let ?u = "noKeys\<lparr> has_stats := Some ?s, has_manualRating := Some (Some False) \<rparr>"
  note t = rating_invariant [where player="?u" and s="?s" and t=0 and cur=manualCard
      and clock="\<lambda>i. 0" and fileText="Inr sampleCSV" and st=initialBatchService
      and result=sampleResult and q="sampleCard 1 ''Ann'' ''DEV'' ''FR''"
      and parsed="Inr sampleJSON" and result'=sampleJSONResult and q'="bobCard 0 0"]
  have zero: "manualRating (updatePlayer 0 ?u manualCard) = Some False"
    by (simp add: noKeys_def updatePlayer_fields orKeep_def)
  have u: "has_stats ?u = Some ?s" "manualRating (updatePlayer 0 ?u manualCard) \<noteq> Some True"
    by (simp_all add: noKeys_def updatePlayer_fields orKeep_def)
  from t u have "rating (updatePlayer 0 ?u manualCard) = calculateOverallRating ?s" by blast
  then have one: "rating (updatePlayer 0 ?u manualCard) = 80"
    by (simp add: calculateOverallRating_div)
  have q: "sampleCard 1 ''Ann'' ''DEV'' ''FR'' \<in> set (success sampleResult)"
    "manualRating (sampleCard 1 ''Ann'' ''DEV'' ''FR'') \<noteq> Some True"
    by (simp_all add: sampleResult_def sampleCard_def)
  from t sample_import q
  have two: "rating (sampleCard 1 ''Ann'' ''DEV'' ''FR'')
       = calculateOverallRating (stats (sampleCard 1 ''Ann'' ''DEV'' ''FR''))" by blast
  have q': "bobCard 0 0 \<in> set (success sampleJSONResult)" "manualRating (bobCard 0 0) \<noteq> Some True"
    by (simp_all add: sampleJSONResult_def bobCard_def)
  from t sampleJSON_import q'
  have three: "rating (bobCard 0 0) = calculateOverallRating (stats (bobCard 0 0))" by blast
  from zero one two three show ?thesis by (intro conjI)
qed


section \<open>Randomized stats\<close>

lemma generateStat_Seeded:
  "generateStat random (Seeded h) =
     (generateStatValue (lcgValue (lcgNext h)) (lcgValue (lcgNext (lcgNext h))),
      Seeded (lcgNext (lcgNext h)))"
  by (simp add: generateStat_def)

lemma generateStat_MathRandom:
  "generateStat random (MathRandom k) =
     (generateStatValue (random k) (random (Suc k)), MathRandom (Suc (Suc k)))"
  by (simp add: generateStat_def)

lemma randomizeStats_seeded:
  assumes "seed \<noteq> []"
  shows "randomizeStats random (Some seed) =
     \<lparr> technical = generateStatValue (seededDraw seed 1) (seededDraw seed 2),
       leadership = generateStatValue (seededDraw seed 3) (seededDraw seed 4),
       creativity = generateStatValue (seededDraw seed 5) (seededDraw seed 6),
       reliability = generateStatValue (seededDraw seed 7) (seededDraw seed 8),
       collaboration = generateStatValue (seededDraw seed 9) (seededDraw seed 10),
       adaptability = generateStatValue (seededDraw seed 11) (seededDraw seed 12) \<rparr>"
  using assms
  by (simp add: randomizeStats_def generateStat_Seeded seededDraw_def numeral_eq_Suc)

lemma randomizeStats_unseeded:
  "randomizeStats random (Some []) =
     \<lparr> technical = generateStatValue (random 0) (random 1),
       leadership = generateStatValue (random 2) (random 3),
       creativity = generateStatValue (random 4) (random 5),
       reliability = generateStatValue (random 6) (random 7),
       collaboration = generateStatValue (random 8) (random 9),
       adaptability = generateStatValue (random 10) (random 11) \<rparr>"
  by (simp add: randomizeStats_def generateStat_MathRandom numeral_eq_Suc)

lemma rngStream_Seeded:
  "rngStream random (Seeded h) n = map (\<lambda>k. lcgValue ((lcgNext ^^ k) h)) [Suc 0..<Suc n]"
proof (induction n arbitrary: h)
  case 0
  then show ?case by simp
next
  case (Suc n)
  have "[Suc 0..<Suc (Suc n)] = Suc 0 # map Suc [Suc 0..<Suc n]"
    by (simp only: map_Suc_upt upt_conv_Cons [of "Suc 0" "Suc (Suc n)"] Suc_less_eq zero_less_Suc)
  then have "map (\<lambda>k. lcgValue ((lcgNext ^^ k) h)) [Suc 0..<Suc (Suc n)]
      = lcgValue (lcgNext h) # map (\<lambda>k. lcgValue ((lcgNext ^^ k) (lcgNext h))) [Suc 0..<Suc n]"
    by (simp only: list.map map_map comp_def funpow_Suc_right funpow_0 id_apply One_nat_def)
  then show ?case
    by (simp add: Suc.IH del: upt_Suc)
qed

lemma jsRem_nonpos: "a \<le> 0 \<Longrightarrow> jsRem a b \<le> 0"
proof -
  assume a: "a \<le> 0"
  have "0 \<le> \<bar>a\<bar> mod \<bar>b\<bar>"
  proof (cases "b = 0")
    case True
    then show ?thesis by simp
  next
    case False
    then have "0 < \<bar>b\<bar>" by simp
    then show ?thesis by (rule pos_mod_sign)
  qed
  moreover from a have "sgn a \<le> 0" by (simp add: sgn_if)
  ultimately show ?thesis
    unfolding jsRem_def by (simp only: mult_nonpos_nonneg)
qed

lemma lcgNext_nonpos: "h \<le> 0 \<Longrightarrow> lcgNext h \<le> 0"
  by (simp add: lcgNext_def jsRem_nonpos mult_le_0_iff)

lemma funpow_lcgNext_nonpos: "h \<le> 0 \<Longrightarrow> (lcgNext ^^ k) h \<le> 0"
  by (induction k) (simp_all add: lcgNext_nonpos)

lemma lcgValue_negative: "h \<le> 0 \<Longrightarrow> lcgValue h < 0"
proof -
  assume "h \<le> 0"
  then have "rat_of_int h - 1 < 0" by simp
  then show ?thesis by (simp add: lcgValue_def divide_neg_pos)
qed

lemma seededDraw_negative: "seededRandom seed \<le> 0 \<Longrightarrow> seededDraw seed k < 0"
  by (simp add: seededDraw_def lcgValue_negative funpow_lcgNext_nonpos)

lemma generateStatValue_NaN: "u1 < 0 \<Longrightarrow> generateStatValue u1 u2 = None"
  by (simp add: generateStatValue_def Let_def)

lemma generateStatValue_range:
  "generateStatValue u1 u2 = Some v \<Longrightarrow> 60 \<le> v \<and> v \<le> 98"
  by (auto simp: generateStatValue_def Let_def split: if_splits)

lemma randomizeStats_NaN:
  assumes "seed \<noteq> []" and "seededRandom seed \<le> 0"
  shows "randomizeStats random (Some seed) =
     \<lparr> technical = None, leadership = None, creativity = None,
       reliability = None, collaboration = None, adaptability = None \<rparr>"
  unfolding randomizeStats_seeded [OF assms(1)]
  by (simp add: generateStatValue_NaN seededDraw_negative [OF assms(2)])

lemma seededRandom_test_seed: "seededRandom ''test-seed'' = - 1226328372"
  by (simp add: seededRandom_def hashStep_def ToInt32_def charCode_def)

text \<open>
  C4, for a seed that is not the empty string. The values the seeded generator returns
  do not depend on \<open>Math.random\<close>: the first \<open>n\<close> of them are the same in any two runs,
  the \<open>k\<close>-th being \<open>seededDraw seed k\<close>. So two calls of \<open>randomizeStats\<close> with the seed
  return the same six stats, each made from two draws in a row, in the order technical,
  leadership, creativity, reliability, collaboration, adaptability.
\<close>

theorem randomizeStats_deterministic:
  assumes "seed \<noteq> []"
  shows "rngStream random1 (Seeded (seededRandom seed)) n
           = rngStream random2 (Seeded (seededRandom seed)) n
       \<and> rngStream random1 (Seeded (seededRandom seed)) n = map (seededDraw seed) [Suc 0..<Suc n]
       \<and> randomizeStats random1 (Some seed) = randomizeStats random2 (Some seed)
       \<and> randomizeStats random1 (Some seed) =
           \<lparr> technical = generateStatValue (seededDraw seed 1) (seededDraw seed 2),
             leadership = generateStatValue (seededDraw seed 3) (seededDraw seed 4),
             creativity = generateStatValue (seededDraw seed 5) (seededDraw seed 6),
             reliability = generateStatValue (seededDraw seed 7) (seededDraw seed 8),
             collaboration = generateStatValue (seededDraw seed 9) (seededDraw seed 10),
             adaptability = generateStatValue (seededDraw seed 11) (seededDraw seed 12) \<rparr>"
proof -
  have s: "rngStream random (Seeded (seededRandom seed)) n = map (seededDraw seed) [Suc 0..<Suc n]"
    for random
    unfolding rngStream_Seeded seededDraw_def ..
  show ?thesis
    using s [of random1] s [of random2] randomizeStats_seeded [OF assms, of random1]
      randomizeStats_seeded [OF assms, of random2]
    by (simp only: simp_thms)
qed

text \<open>The seed \<open>abc\<close> under the two runs of \<open>Math.random\<close>.\<close>

theorem randomizeStats_deterministic_witness:
  "''abc'' \<noteq> []
   \<and> randomizeStats randomA (Some ''abc'') = randomizeStats randomB (Some ''abc'')
   \<and> rngStream randomA (Seeded (seededRandom ''abc'')) 12
       = rngStream randomB (Seeded (seededRandom ''abc'')) 12"
proof -
  have a: "''abc'' \<noteq> []" by simp
  from randomizeStats_deterministic [OF a, of randomA 12 randomB] a show ?thesis by blast
qed

lemma generateStatValue_half_quarter: "generateStatValue (1 / 2) (1 / 4) = Some 78"
proof -
  have "2 * pi * real_of_rat (1 / 4) = pi / 2" by (simp add: of_rat_divide)
  then have c: "cos (2 * pi * real_of_rat (1 / 4)) = 0" by (simp only: cos_pi_half)
  show ?thesis
    unfolding generateStatValue_def Let_def c by (simp add: Math_round_def)
qed

lemma generateStatValue_half_half:
  "\<exists>v. generateStatValue (1 / 2) (1 / 2) = Some v \<and> v \<le> 70"
proof -
  have "2 * pi * real_of_rat (1 / 2) = pi" by (simp add: of_rat_divide)
  then have c: "cos (2 * pi * real_of_rat (1 / 2)) = - 1" by (simp only: cos_pi)
  have h: "real_of_rat (1 / 2) = 1 / 2" by (simp add: of_rat_divide)
  have "ln (1 / 2 :: real) \<le> 1 / 2 - 1" by (rule ln_le_minus_one) simp
  then have "1 \<le> - 2 * ln (1 / 2 :: real)" by simp
  then have "1 \<le> sqrt (- 2 * ln (1 / 2 :: real))" by (simp only: real_sqrt_ge_one)
  then have "sqrt (- 2 * ln (1 / 2 :: real)) * (- 1) * 8 + 78 + 1 / 2 < 71" by linarith
  then have "Math_round (sqrt (- 2 * ln (1 / 2 :: real)) * (- 1) * 8 + 78) \<le> 70"
    unfolding Math_round_def by (simp add: floor_le_iff)
  then show ?thesis
    unfolding generateStatValue_def Let_def c h by simp
qed

text \<open>With the empty string as the seed \<open>randomizeStats\<close> draws from \<open>Math.random\<close>:
  the draws 0.5 and 0.25 give the technical stat 78, the draws 0.5 and 0.5 one of at
  most 70.\<close>

theorem randomizeStats_empty_seed_counterexample:
  "technical (randomizeStats randomA (Some [])) = Some 78
   \<and> technical (randomizeStats randomB (Some [])) \<noteq> Some 78
   \<and> randomizeStats randomA (Some []) \<noteq> randomizeStats randomB (Some [])"
proof -
  have a: "technical (randomizeStats randomA (Some [])) = Some 78"
    unfolding randomizeStats_unseeded by (simp add: randomA_def generateStatValue_half_quarter)
  obtain v where "generateStatValue (1 / 2) (1 / 2) = Some v" "v \<le> 70"
    using generateStatValue_half_half by blast
  then have b: "technical (randomizeStats randomB (Some [])) \<noteq> Some 78"
    unfolding randomizeStats_unseeded by (simp add: randomB_def)
  from a b have "randomizeStats randomA (Some []) \<noteq> randomizeStats randomB (Some [])"
    by metis
  with a b show ?thesis by (intro conjI)
qed

text \<open>
  C5. The seeded stat generator does not keep every stat in [60, 98]: the source has no
  guard on \<open>u1\<close>. The hash of the seed \<open>test-seed\<close> is negative, the remainder \<open>%\<close>
  keeps the sign, so every value the generator returns is negative; \<open>Math.log\<close> of it
  is NaN, and all six stats are NaN.
\<close>

theorem randomizeStats_test_seed_NaN:
  "seededRandom ''test-seed'' = - 1226328372
   \<and> seededDraw ''test-seed'' 1 < 0
   \<and> randomizeStats random (Some ''test-seed'') =
       \<lparr> technical = None, leadership = None, creativity = None,
         reliability = None, collaboration = None, adaptability = None \<rparr>"
proof -
  have n: "seededRandom ''test-seed'' \<le> 0" by (simp add: seededRandom_test_seed)
  have e: "''test-seed'' \<noteq> []" by simp
  from seededRandom_test_seed seededDraw_negative [OF n, of 1] randomizeStats_NaN [OF e n, of random]
  show ?thesis by (intro conjI)
qed


end
